theory Spec2Isabelle
  imports Main "HOL-Library.Finite_Map" "HOL-Library.Char_ord" "HOL-Library.List_Lexorder"
begin

section \<open>Errors\<close>

text \<open>
  Every \<open>fmt.Errorf\<close> of the sources is a constructor that keeps the arguments of its
  format string; \<open>%w\<close> keeps the wrapped error. \<open>External\<close> stands for an error made
  outside these sources (a plugin's \<open>Validate\<close> or \<open>Init\<close>, a registry factory, the
  JSON and protobuf libraries), \<open>UnmarshalTypeError\<close> for the error of \<open>encoding/json\<close>
  on a JSON value that does not fit the Go type it is decoded into, \<open>SyntaxError\<close> for
  its error on a text that is not JSON. \<open>Panic\<close> is not a
  returned error: it is a run-time panic, with its message.
\<close>

datatype error =
    UnknownRegistry string
  | NotForConsumer string
  | UnmarshalConsumerConfigFailed string error
  | ValidateConsumerConfigFailed string error
  | PluginNotFound string
  | ParsingPluginFailed error string
  | UnmarshalTypeError string
  | SyntaxError
  | External string
  | Panic string

section \<open>Registry package: protocols\<close>

text \<open>\<open>type Protocol string\<close> with its eight constants.\<close>

type_synonym Protocol = string

definition HTTP :: Protocol where "HTTP = ''HTTP''"
definition HTTPS :: Protocol where "HTTPS = ''HTTPS''"
definition GRPC :: Protocol where "GRPC = ''GRPC''"
definition HTTP2 :: Protocol where "HTTP2 = ''HTTP2''"
definition MONGO :: Protocol where "MONGO = ''MONGO''"
definition TCP :: Protocol where "TCP = ''TCP''"
definition TLS :: Protocol where "TLS = ''TLS''"
definition Unsupported :: Protocol where "Unsupported = ''Unsupported''"

definition ProtocolMap :: "string \<rightharpoonup> Protocol" where
  "ProtocolMap = map_of
     [(''http'', HTTP), (''https'', HTTPS), (''grpc'', GRPC), (''http2'', HTTP2),
      (''mongo'', MONGO), (''tcp'', TCP), (''tls'', TLS)]"

text \<open>
  \<open>strings.ToLower\<close> on the bytes of a Go string: the letters \<open>A\<close> to \<open>Z\<close> move to
  \<open>a\<close> to \<open>z\<close>, every other byte stays. Go lowers the runes of a string that is not
  pure ASCII with the Unicode tables; the only runes outside ASCII whose lower case is
  inside ASCII give \<open>i\<close> and \<open>k\<close>, letters that no key of \<open>ProtocolMap\<close> contains, so
  a string with a byte outside ASCII misses the table in Go as it does here.
\<close>

definition lowerByte :: "char \<Rightarrow> char" where
  "lowerByte c =
     (if CHR ''A'' \<le> c \<and> c \<le> CHR ''Z'' then char_of (of_char c + (32::nat)) else c)"

definition ToLower :: "string \<Rightarrow> string" where
  "ToLower s = map lowerByte s"

definition ParseProtocol :: "string \<Rightarrow> Protocol" where
  "ParseProtocol s =
     (case ProtocolMap (ToLower s) of None \<Rightarrow> Unsupported | Some res \<Rightarrow> res)"

section \<open>Registry package: factories\<close>

text \<open>
  A \<open>RegistryFactory\<close> returns the Go pair \<open>(Registry, error)\<close>. The table
  \<open>registryFactories\<close> is a package variable: it is passed to the functions that read
  or write it.
\<close>

type_synonym ('store, 'meta, 'reg) RegistryFactory =
  "'store \<Rightarrow> 'meta \<Rightarrow> 'reg option \<times> error option"

definition AddRegistryFactory ::
  "(string \<rightharpoonup> ('store, 'meta, 'reg) RegistryFactory) \<Rightarrow> string \<Rightarrow>
   ('store, 'meta, 'reg) RegistryFactory \<Rightarrow> (string \<rightharpoonup> ('store, 'meta, 'reg) RegistryFactory)" where
  "AddRegistryFactory registryFactories name factory = registryFactories(name \<mapsto> factory)"

text \<open>
  \<open>CreateRegistry\<close> returns the pair of the source and, beside it, the list of the
  factory calls it made: the name whose factory ran and the arguments it ran on.
\<close>

definition CreateRegistry ::
  "(string \<rightharpoonup> ('store, 'meta, 'reg) RegistryFactory) \<Rightarrow> string \<Rightarrow> 'store \<Rightarrow> 'meta \<Rightarrow>
   ('reg option \<times> error option) \<times> (string \<times> 'store \<times> 'meta) list" where
  "CreateRegistry registryFactories name store om =
     (case registryFactories name of
        None \<Rightarrow> ((None, Some (UnknownRegistry name)), [])
      | Some factory \<Rightarrow> (factory store om, [(name, store, om)]))"

section \<open>Plugins package\<close>

text \<open>
  \<open>PluginOrder\<close> is declared outside these sources. \<open>ComparePluginOrder\<close> reads its
  fields \<open>Position\<close> and \<open>Operation\<close> and compares each with \<open>!=\<close> and \<open><\<close>; they
  are ordinal constants, integers here. The zero value has both fields 0.
\<close>

record PluginOrder =
  Position :: int
  Operation :: int

definition zeroOrder :: PluginOrder where
  "zeroOrder = \<lparr>Position = 0, Operation = 0\<rparr>"

text \<open>
  A \<open>Plugin\<close> is an interface value: the record holds what its methods return.
  \<open>Config\<close> is the fresh empty configuration object, \<open>Factory\<close> the filter factory
  (\<open>ConfigFactory\<close> in the older file), and \<open>ConsumerConfig\<close> is present exactly when
  the plugin also implements \<open>ConsumerPlugin\<close>. Configuration objects of all plugins
  live in one type \<open>'cfg\<close>.
\<close>

record ('cfg, 'fac) Plugin =
  Order :: PluginOrder
  Config :: 'cfg
  Factory :: 'fac
  ConsumerConfig :: "'cfg option"

text \<open>
  The methods of the configuration objects and the library calls made on them. They
  belong to the plugins and to the libraries, so they are parameters:
  \<open>jsonMarshal\<close> is \<open>json.Marshal\<close> on the supplied value, \<open>protojsonUnmarshal\<close> is
  \<open>protojson.Unmarshal(data, conf)\<close>, \<open>protoUnmarshalJSON\<close> is \<open>proto.UnmarshalJSON\<close>
  of the internal proto package, \<open>Validate\<close> and \<open>Init\<close> are the object's own
  methods. A call that changes the object returns the changed object.
\<close>

record ('cfg, 'any, 'cb) ConfigOps =
  jsonMarshal :: "'any \<Rightarrow> error + string"
  protojsonUnmarshal :: "string \<Rightarrow> 'cfg \<Rightarrow> error + 'cfg"
  protoUnmarshalJSON :: "string \<Rightarrow> 'cfg \<Rightarrow> error + 'cfg"
  Validate :: "'cfg \<Rightarrow> error option"
  Init :: "'cb option \<Rightarrow> 'cfg \<Rightarrow> error + 'cfg"

text \<open>\<open>PluginConfigParser\<close> embeds the plugin it parses for.\<close>

datatype ('cfg, 'fac) PluginConfigParser =
  PluginConfigParser (parserPlugin: "('cfg, 'fac) Plugin")

definition NewPluginConfigParser :: "('cfg, 'fac) Plugin \<Rightarrow> ('cfg, 'fac) PluginConfigParser" where
  "NewPluginConfigParser parser = PluginConfigParser parser"

record ('cfg, 'fac) FilterFactoryAndParser =
  ffpFactory :: 'fac
  ConfigParser :: "('cfg, 'fac) PluginConfigParser"

text \<open>
  The package variables: the plugin table \<open>httpPlugins\<close>, the order snapshot
  \<open>nameToOrder\<close> with the done flag of its \<open>sync.Once\<close>, and the table of the filter
  manager that \<open>RegisterHttpPlugin\<close> writes through
  \<open>RegisterHttpFilterConfigFactoryAndParser\<close>.
\<close>

record ('cfg, 'fac) PluginsState =
  httpPlugins :: "string \<rightharpoonup> ('cfg, 'fac) Plugin"
  httpFilterFactoryAndParser :: "string \<rightharpoonup> ('cfg, 'fac) FilterFactoryAndParser"
  nameToOrder :: "string \<rightharpoonup> PluginOrder"
  nameToOrderInit :: bool

definition initialPlugins :: "('cfg, 'fac) PluginsState" where
  "initialPlugins =
     \<lparr>httpPlugins = Map.empty, httpFilterFactoryAndParser = Map.empty,
      nameToOrder = Map.empty, nameToOrderInit = False\<rparr>"

text \<open>
  A nil plugin is \<open>None\<close>; registering it panics. Logging changes nothing that is
  modelled and is left out, here and below.
\<close>

definition RegisterHttpPlugin ::
  "('cfg, 'fac) PluginsState \<Rightarrow> string \<Rightarrow> ('cfg, 'fac) Plugin option \<Rightarrow>
   error + ('cfg, 'fac) PluginsState" where
  "RegisterHttpPlugin st name plugin =
     (case plugin of
        None \<Rightarrow> Inl (Panic ''plugin should not be nil'')
      | Some p \<Rightarrow>
          Inr (st\<lparr>httpFilterFactoryAndParser := (httpFilterFactoryAndParser st)
                     (name \<mapsto> \<lparr>ffpFactory = Factory p, ConfigParser = NewPluginConfigParser p\<rparr>),
                  httpPlugins := (httpPlugins st)(name \<mapsto> p)\<rparr>))"

definition LoadHttpPlugin ::
  "('cfg, 'fac) PluginsState \<Rightarrow> string \<Rightarrow> ('cfg, 'fac) Plugin option" where
  "LoadHttpPlugin st name = httpPlugins st name"

text \<open>
  Modelled from the spec: \<open>LoadHttpFilterFactoryAndParser\<close>, which \<open>InitConfigs\<close> calls
  and these sources do not hold; the spec has it "look up the plugin's registered
  config-factory-and-parser pair", nil when there is none.
\<close>

definition LoadHttpFilterFactoryAndParser ::
  "('cfg, 'fac) PluginsState \<Rightarrow> string \<Rightarrow> ('cfg, 'fac) FilterFactoryAndParser option" where
  "LoadHttpFilterFactoryAndParser st name = httpFilterFactoryAndParser st name"

text \<open>
  \<open>Parse\<close> returns the Go pair as a sum and, beside it, the calls it made in the order
  it made them: the marshalling of the value, the decoding into the object, and the
  object's \<open>Validate\<close> and \<open>Init\<close>, each with the object it ran on.
\<close>

datatype ('cfg, 'any) call =
    CallMarshal 'any
  | CallUnmarshal string 'cfg
  | CallValidate 'cfg
  | CallInit 'cfg

definition Parse ::
  "('cfg, 'any, 'cb) ConfigOps \<Rightarrow> ('cfg, 'fac) PluginConfigParser \<Rightarrow> 'any option \<Rightarrow>
   'cb option \<Rightarrow> (error + 'cfg) \<times> ('cfg, 'any) call list" where
  "Parse ops cp any callbacks =
     (case (case any of
              None \<Rightarrow> (Inr (Config (parserPlugin cp)), [])
            | Some a \<Rightarrow>
                (case jsonMarshal ops a of
                   Inl err \<Rightarrow> (Inl err, [CallMarshal a])
                 | Inr data \<Rightarrow>
                     (case protojsonUnmarshal ops data (Config (parserPlugin cp)) of
                        Inl err \<Rightarrow>
                          (Inl err, [CallMarshal a, CallUnmarshal data (Config (parserPlugin cp))])
                      | Inr conf \<Rightarrow>
                          (Inr conf, [CallMarshal a, CallUnmarshal data (Config (parserPlugin cp))]))))
      of
        (Inl err, calls) \<Rightarrow> (Inl err, calls)
      | (Inr conf, calls) \<Rightarrow>
          (case Validate ops conf of
             Some err \<Rightarrow> (Inl err, calls @ [CallValidate conf])
           | None \<Rightarrow>
               (case Init ops callbacks conf of
                  Inl err \<Rightarrow> (Inl err, calls @ [CallValidate conf, CallInit conf])
                | Inr conf' \<Rightarrow> (Inr conf', calls @ [CallValidate conf, CallInit conf]))))"

text \<open>
  \<open>nameToOrderInit.Do\<close>: the first call copies the order of every registered plugin
  into \<open>nameToOrder\<close> and sets the flag; later calls do nothing. The visitor given to
  \<open>IterateHttpPlugin\<close> always returns true, so every entry of \<open>httpPlugins\<close> is visited,
  each key once: the snapshot is written key by key. The model is sequential; what
  \<open>sync.Once\<close> and \<open>sync.Map\<close> do between concurrent callers is outside it.
\<close>

definition nameToOrderInit_Do :: "('cfg, 'fac) PluginsState \<Rightarrow> ('cfg, 'fac) PluginsState" where
  "nameToOrderInit_Do st =
     (if nameToOrderInit st then st
      else st\<lparr>nameToOrder :=
                 (\<lambda>key. case httpPlugins st key of
                          Some v \<Rightarrow> Some (Order v)
                        | None \<Rightarrow> nameToOrder st key),
              nameToOrderInit := True\<rparr>)"

text \<open>Reading a Go map at a missing key gives the zero value.\<close>

definition orderAt :: "(string \<rightharpoonup> PluginOrder) \<Rightarrow> string \<Rightarrow> PluginOrder" where
  "orderAt m a = (case m a of None \<Rightarrow> zeroOrder | Some v \<Rightarrow> v)"

definition ComparePluginOrder ::
  "('cfg, 'fac) PluginsState \<Rightarrow> string \<Rightarrow> string \<Rightarrow> bool \<times> ('cfg, 'fac) PluginsState" where
  "ComparePluginOrder st a b =
     (let st' = nameToOrderInit_Do st;
          aOrder = orderAt (nameToOrder st') a;
          bOrder = orderAt (nameToOrder st') b
      in (if Position aOrder \<noteq> Position bOrder then Position aOrder < Position bOrder
          else if Operation aOrder \<noteq> Operation bOrder then Operation aOrder < Operation bOrder
          else a < b,
          st'))"

text \<open>
  A process lifetime, as far as the plugin tables go: any sequence of registrations of
  non-nil plugins and of order comparisons.
\<close>

datatype ('cfg, 'fac) pluginCall =
    Register string "('cfg, 'fac) Plugin"
  | Compare string string

fun afterCall ::
  "('cfg, 'fac) PluginsState \<Rightarrow> ('cfg, 'fac) pluginCall \<Rightarrow> ('cfg, 'fac) PluginsState" where
  "afterCall st (Register name p) =
     (case RegisterHttpPlugin st name (Some p) of Inl _ \<Rightarrow> st | Inr st' \<Rightarrow> st')"
| "afterCall st (Compare a b) = snd (ComparePluginOrder st a b)"

definition afterCalls ::
  "('cfg, 'fac) PluginsState \<Rightarrow> ('cfg, 'fac) pluginCall list \<Rightarrow> ('cfg, 'fac) PluginsState" where
  "afterCalls st cs = foldl afterCall st cs"

text \<open>
  The scenario of the spec: \<open>basic-auth\<close> registered with position 10 and
  \<open>rate-limit\<close> with position 20, both with operation 0, and no comparison made yet.
\<close>

definition examplePlugin :: "int \<Rightarrow> int \<Rightarrow> (nat, nat) Plugin" where
  "examplePlugin pos opn =
     \<lparr>Order = \<lparr>Position = pos, Operation = opn\<rparr>, Config = 0, Factory = 0,
      ConsumerConfig = None\<rparr>"

definition scenarioPlugins :: "(nat, nat) PluginsState" where
  "scenarioPlugins =
     afterCalls initialPlugins
       [Register ''basic-auth'' (examplePlugin 10 0), Register ''rate-limit'' (examplePlugin 20 0)]"

text \<open>The same two plugins with the positions exchanged.\<close>

definition exchangedPlugins :: "(nat, nat) PluginsState" where
  "exchangedPlugins =
     afterCalls initialPlugins
       [Register ''basic-auth'' (examplePlugin 20 0), Register ''rate-limit'' (examplePlugin 10 0)]"

text \<open>
  A toy set of configuration objects for closed examples: an object is a number, a
  supplied value \<open>a\<close> is marshalled to \<open>a\<close> bytes unless it is 99, decoding adds the
  length of the data to the object and rejects data longer than ten bytes, objects
  above 5 are invalid, and object 3 fails to initialise.
\<close>

definition exampleOps :: "(nat, nat, unit) ConfigOps" where
  "exampleOps =
     \<lparr>jsonMarshal = (\<lambda>a. if a = 99 then Inl (External ''unsupported value'')
                         else Inr (replicate a CHR ''x'')),
      protojsonUnmarshal = (\<lambda>data conf. if 10 < length data then Inl (External ''bad data'')
                                         else Inr (conf + length data)),
      protoUnmarshalJSON = (\<lambda>data conf. if 10 < length data then Inl (External ''bad data'')
                                         else Inr (conf + length data)),
      Validate = (\<lambda>conf. if 5 < conf then Some (External ''invalid'') else None),
      Init = (\<lambda>cb conf. if conf = 3 then Inl (External ''init failed'') else Inr (conf + 100))\<rparr>"

section \<open>JSON documents\<close>

text \<open>
  \<open>Marshal\<close> and \<open>Unmarshal\<close> hand the consumer to \<open>encoding/json\<close>. A JSON text is
  represented by the document it denotes: objects keep their members in the order of
  the text, and a number keeps its literal. Strings are Go strings, that is byte
  sequences; a JSON string is a sequence of Unicode characters, held here in UTF-8.
  A text that is not JSON is \<open>Malformed\<close>.
\<close>

datatype json =
    JNull
  | JBool bool
  | JNumber string
  | JString string
  | JArray "json list"
  | JObject "(string \<times> json) list"

datatype jsonText = Document json | Malformed string

text \<open>
  The encoder reads a Go string rune by rune, as \<open>utf8.DecodeRuneInString\<close> does; a
  byte that starts no well-formed UTF-8 sequence is written as U+FFFD, whose UTF-8 form
  has the bytes 239, 191, 189. \<open>runeLen\<close> is the length of the well-formed sequence at
  the head of the bytes, and 0 when there is none.
\<close>

definition contByte :: "nat \<Rightarrow> bool" where
  "contByte b \<longleftrightarrow> 128 \<le> b \<and> b \<le> 191"

definition secondByteOk :: "nat \<Rightarrow> nat \<Rightarrow> bool" where
  "secondByteOk b0 b1 \<longleftrightarrow>
     (if b0 = 224 then 160 \<le> b1 \<and> b1 \<le> 191
      else if b0 = 237 then 128 \<le> b1 \<and> b1 \<le> 159
      else if b0 = 240 then 144 \<le> b1 \<and> b1 \<le> 191
      else if b0 = 244 then 128 \<le> b1 \<and> b1 \<le> 143
      else contByte b1)"

definition runeLen :: "nat list \<Rightarrow> nat" where
  "runeLen bs =
     (case bs of
        [] \<Rightarrow> 0
      | b0 # r \<Rightarrow>
          if b0 < 128 then 1
          else if 194 \<le> b0 \<and> b0 \<le> 223 then
            (case r of b1 # _ \<Rightarrow> if contByte b1 then 2 else 0 | _ \<Rightarrow> 0)
          else if 224 \<le> b0 \<and> b0 \<le> 239 then
            (case r of
               b1 # b2 # _ \<Rightarrow> if secondByteOk b0 b1 \<and> contByte b2 then 3 else 0
             | _ \<Rightarrow> 0)
          else if 240 \<le> b0 \<and> b0 \<le> 244 then
            (case r of
               b1 # b2 # b3 # _ \<Rightarrow>
                 if secondByteOk b0 b1 \<and> contByte b2 \<and> contByte b3 then 4 else 0
             | _ \<Rightarrow> 0)
          else 0)"

fun coerceUTF8 :: "string \<Rightarrow> string" where
  "coerceUTF8 [] = []"
| "coerceUTF8 (c # cs) =
     (if runeLen (map of_char (take 4 (c # cs))) = 0
        then char_of (239::nat) # char_of (191::nat) # char_of (189::nat) # coerceUTF8 cs
      else c # take (runeLen (map of_char (take 4 (c # cs))) - 1) cs
             @ coerceUTF8 (drop (runeLen (map of_char (take 4 (c # cs))) - 1) cs))"

definition validUTF8 :: "string \<Rightarrow> bool" where
  "validUTF8 s \<longleftrightarrow> coerceUTF8 s = s"

subsection \<open>Encoding\<close>

definition encString :: "string \<Rightarrow> json" where
  "encString s = JString (coerceUTF8 s)"

text \<open>A nil map is \<open>null\<close>; the members of a map are written in the order of their keys.\<close>

definition encMap :: "('v \<Rightarrow> json) \<Rightarrow> (string, 'v) fmap option \<Rightarrow> json" where
  "encMap enc m =
     (case m of
        None \<Rightarrow> JNull
      | Some f \<Rightarrow> JObject (map (\<lambda>(k, v). (coerceUTF8 k, enc v)) (sorted_list_of_fmap f)))"

definition encSlice :: "('v \<Rightarrow> json) \<Rightarrow> 'v list option \<Rightarrow> json" where
  "encSlice enc xs = (case xs of None \<Rightarrow> JNull | Some l \<Rightarrow> JArray (map enc l))"

definition encPtr :: "('v \<Rightarrow> json) \<Rightarrow> 'v option \<Rightarrow> json" where
  "encPtr enc p = (case p of None \<Rightarrow> JNull | Some v \<Rightarrow> enc v)"

text \<open>\<open>omitempty\<close> on a map: it is left out when its length is 0, nil or not.\<close>

definition emptyMap :: "(string, 'v) fmap option \<Rightarrow> bool" where
  "emptyMap m \<longleftrightarrow> (case m of None \<Rightarrow> True | Some f \<Rightarrow> f = fmempty)"

subsection \<open>Decoding\<close>

text \<open>
  Decoding goes on after a value of the wrong type and returns the first error at the
  end. An element of a map is decoded into a fresh zero value and stored under its
  key also when its decoding failed; \<open>null\<close> leaves a string or a bool as it is and
  makes a map or a pointer nil.
\<close>

definition firstError :: "error option \<Rightarrow> error option \<Rightarrow> error option" where
  "firstError e e' = (case e of None \<Rightarrow> e' | Some x \<Rightarrow> Some x)"

definition decString :: "json \<Rightarrow> error option \<times> string" where
  "decString j =
     (case j of
        JString s \<Rightarrow> (None, s)
      | JNull \<Rightarrow> (None, [])
      | _ \<Rightarrow> (Some (UnmarshalTypeError ''string''), []))"

definition decBool :: "json \<Rightarrow> error option \<times> bool" where
  "decBool j =
     (case j of
        JBool b \<Rightarrow> (None, b)
      | JNull \<Rightarrow> (None, False)
      | _ \<Rightarrow> (Some (UnmarshalTypeError ''bool''), False))"

definition decPtr :: "(json \<Rightarrow> error option \<times> 'v) \<Rightarrow> json \<Rightarrow> error option \<times> 'v option" where
  "decPtr dec j =
     (case j of
        JNull \<Rightarrow> (None, None)
      | _ \<Rightarrow> (case dec j of (e, v) \<Rightarrow> (e, Some v)))"

definition decMember ::
  "(json \<Rightarrow> error option \<times> 'v) \<Rightarrow> error option \<times> (string, 'v) fmap \<Rightarrow> string \<times> json \<Rightarrow>
   error option \<times> (string, 'v) fmap" where
  "decMember dec acc kv =
     (case dec (snd kv) of (e, v) \<Rightarrow> (firstError (fst acc) e, fmupd (fst kv) v (snd acc)))"

definition decMap ::
  "(json \<Rightarrow> error option \<times> 'v) \<Rightarrow> json \<Rightarrow> (string, 'v) fmap option \<Rightarrow>
   error option \<times> (string, 'v) fmap option" where
  "decMap dec j old =
     (case j of
        JNull \<Rightarrow> (None, None)
      | JObject kvs \<Rightarrow>
          (case foldl (decMember dec) (None, case old of None \<Rightarrow> fmempty | Some f \<Rightarrow> f) kvs of
             (e, f) \<Rightarrow> (e, Some f))
      | _ \<Rightarrow> (Some (UnmarshalTypeError ''map''), old))"

text \<open>
  A member of an object goes to the field whose name is its key, or else to the field
  whose name is its key when case is ignored. The fold of \<open>encoding/json\<close> takes the
  ASCII letters to upper case and, of the runes outside ASCII, takes the Kelvin sign to
  \<open>K\<close> and the long s to \<open>S\<close>; any other rune outside ASCII stays outside ASCII and so
  matches no name of a field.
\<close>

definition upperByte :: "char \<Rightarrow> char" where
  "upperByte c =
     (if CHR ''a'' \<le> c \<and> c \<le> CHR ''z'' then char_of (of_char c - (32::nat)) else c)"

fun foldName :: "string \<Rightarrow> string" where
  "foldName [] = []"
| "foldName (c # cs) =
     (if map of_char (c # take 2 cs) = [226, 132, 170 :: nat] then CHR ''K'' # foldName (drop 2 cs)
      else if map of_char (c # take 1 cs) = [197, 191 :: nat] then CHR ''S'' # foldName (drop 1 cs)
      else upperByte c # foldName cs)"

text \<open>The names of the members of a text that is an object, in the order of the text.\<close>

definition memberNames :: "jsonText \<Rightarrow> string list" where
  "memberNames s = (case s of Document (JObject kvs) \<Rightarrow> map fst kvs | _ \<Rightarrow> [])"

section \<open>Consumer\<close>

text \<open>
  \<open>model.FilterConfig\<close> and \<open>model.FilterWrapper\<close> are declared outside these sources:
  they are the types \<open>'fc\<close> and \<open>'fw\<close>, and what the consumer does with them is a
  parameter. \<open>fcConfig\<close> reads the field \<open>Config\<close>, an interface value that may be nil;
  \<open>fcMarshal\<close> and \<open>fwMarshal\<close> are the JSON encodings of the two structs and
  \<open>fcUnmarshal\<close> decodes into a fresh \<open>FilterConfig\<close>. Decoding a JSON array into a Go
  slice reuses the elements and the hidden capacity of the slice it finds, so the
  decoders of the two slice fields are parameters as well: they take the value and the
  old slice.
\<close>

record ('fc, 'any, 'fw) ModelOps =
  fcConfig :: "'fc \<Rightarrow> 'any option"
  fcMarshal :: "'fc \<Rightarrow> json"
  fcUnmarshal :: "json \<Rightarrow> error option \<times> 'fc"
  fwMarshal :: "'fw \<Rightarrow> json"
  unmarshalFilterNames :: "json \<Rightarrow> string list option \<Rightarrow> error option \<times> string list option"
  unmarshalFilterWrappers ::
    "json \<Rightarrow> 'fw option list option \<Rightarrow> error option \<times> 'fw option list option"

text \<open>\<open>model.ParsedFilterConfig\<close>, with the three fields that \<open>InitConfigs\<close> sets.\<close>

record ('cfg, 'fac) ParsedFilterConfig =
  pfcName :: string
  ParsedConfig :: 'cfg
  pfcFactory :: 'fac

text \<open>
  The struct. A Go map is a finite map or nil, a slice a list or nil, a pointer a value
  or nil. \<open>ConsumerConfigs\<close> and \<open>FilterConfigs\<close> are only read by key and written
  after \<open>make\<close>, where nil and empty do not differ: they are plain maps.
\<close>

record ('cfg, 'fac, 'fc, 'fw) Consumer =
  Auth :: "(string, string) fmap option"
  Filters :: "(string, 'fc option) fmap option"
  namespace :: string
  name :: string
  generation :: int
  ConsumerConfigs :: "string \<rightharpoonup> 'cfg"
  FilterConfigs :: "string \<rightharpoonup> ('cfg, 'fac) ParsedFilterConfig"
  CanSkipMethod :: "(string, bool) fmap option"
  FilterNames :: "string list option"
  FilterWrappers :: "'fw option list option"

text \<open>The zero value, \<open>Consumer{}\<close>.\<close>

definition zeroConsumer :: "('cfg, 'fac, 'fc, 'fw) Consumer" where
  "zeroConsumer =
     \<lparr>Auth = None, Filters = None, namespace = [], name = [], generation = 0,
      ConsumerConfigs = Map.empty, FilterConfigs = Map.empty, CanSkipMethod = None,
      FilterNames = None, FilterWrappers = None\<rparr>"

subsection \<open>Marshal and Unmarshal\<close>

text \<open>
  \<open>encoding/json\<close> writes the exported fields in the order of the struct, under the
  name of their tag or else under their own name, and leaves out the fields tagged
  \<open>json:"-"\<close>: \<open>namespace\<close>, \<open>name\<close> and \<open>generation\<close> are not exported,
  \<open>ConsumerConfigs\<close> and \<open>FilterConfigs\<close> carry the tag, \<open>CanSkipMethod\<close>,
  \<open>FilterNames\<close> and \<open>FilterWrappers\<close> carry no tag. The error of \<open>json.Marshal\<close>
  is dropped by the source, which states it is nil; the encodings are total here.
\<close>

definition Marshal ::
  "('fc, 'any, 'fw) ModelOps \<Rightarrow> ('cfg, 'fac, 'fc, 'fw) Consumer \<Rightarrow> jsonText" where
  "Marshal mo c =
     Document (JObject
       ([(''auth'', encMap encString (Auth c))]
        @ (if emptyMap (Filters c) then []
           else [(''filters'', encMap (encPtr (fcMarshal mo)) (Filters c))])
        @ [(''CanSkipMethod'', encMap JBool (CanSkipMethod c)),
           (''FilterNames'', encSlice encString (FilterNames c)),
           (''FilterWrappers'', encSlice (encPtr (fwMarshal mo)) (FilterWrappers c))]))"

datatype field = FAuth | FFilters | FCanSkipMethod | FFilterNames | FFilterWrappers

definition fields :: "(string \<times> field) list" where
  "fields =
     [(''auth'', FAuth), (''filters'', FFilters), (''CanSkipMethod'', FCanSkipMethod),
      (''FilterNames'', FFilterNames), (''FilterWrappers'', FFilterWrappers)]"

definition findField :: "string \<Rightarrow> field option" where
  "findField key =
     (case map_of fields key of
        Some f \<Rightarrow> Some f
      | None \<Rightarrow> map_of (map (\<lambda>(n, f). (foldName n, f)) fields) (foldName key))"

definition unmarshalMember ::
  "('fc, 'any, 'fw) ModelOps \<Rightarrow> error option \<times> ('cfg, 'fac, 'fc, 'fw) Consumer \<Rightarrow>
   string \<times> json \<Rightarrow> error option \<times> ('cfg, 'fac, 'fc, 'fw) Consumer" where
  "unmarshalMember mo acc kv =
     (case findField (fst kv) of
        None \<Rightarrow> acc
      | Some FAuth \<Rightarrow>
          (case decMap decString (snd kv) (Auth (snd acc)) of
             (e, v) \<Rightarrow> (firstError (fst acc) e, (snd acc)\<lparr>Auth := v\<rparr>))
      | Some FFilters \<Rightarrow>
          (case decMap (decPtr (fcUnmarshal mo)) (snd kv) (Filters (snd acc)) of
             (e, v) \<Rightarrow> (firstError (fst acc) e, (snd acc)\<lparr>Filters := v\<rparr>))
      | Some FCanSkipMethod \<Rightarrow>
          (case decMap decBool (snd kv) (CanSkipMethod (snd acc)) of
             (e, v) \<Rightarrow> (firstError (fst acc) e, (snd acc)\<lparr>CanSkipMethod := v\<rparr>))
      | Some FFilterNames \<Rightarrow>
          (case unmarshalFilterNames mo (snd kv) (FilterNames (snd acc)) of
             (e, v) \<Rightarrow> (firstError (fst acc) e, (snd acc)\<lparr>FilterNames := v\<rparr>))
      | Some FFilterWrappers \<Rightarrow>
          (case unmarshalFilterWrappers mo (snd kv) (FilterWrappers (snd acc)) of
             (e, v) \<Rightarrow> (firstError (fst acc) e, (snd acc)\<lparr>FilterWrappers := v\<rparr>)))"

text \<open>
  \<open>Unmarshal\<close> decodes into the consumer it is called on and returns the error with
  the consumer as the decoding left it. \<open>null\<close> changes nothing; a value that is
  neither \<open>null\<close> nor an object is a type error.
\<close>

definition Unmarshal ::
  "('fc, 'any, 'fw) ModelOps \<Rightarrow> ('cfg, 'fac, 'fc, 'fw) Consumer \<Rightarrow> jsonText \<Rightarrow>
   error option \<times> ('cfg, 'fac, 'fc, 'fw) Consumer" where
  "Unmarshal mo c s =
     (case s of
        Malformed _ \<Rightarrow> (Some SyntaxError, c)
      | Document JNull \<Rightarrow> (None, c)
      | Document (JObject kvs) \<Rightarrow> foldl (unmarshalMember mo) (None, c) kvs
      | Document _ \<Rightarrow> (Some (UnmarshalTypeError ''Consumer''), c))"

subsection \<open>InitConfigs\<close>

text \<open>
  \<open>range\<close> over a Go map visits the keys in an order the language leaves open: the
  order is an argument, and it is an order of the map when it lists every key once.
  Ranging over a nil map visits nothing.
\<close>

definition mapKeys :: "(string, 'v) fmap option \<Rightarrow> string set" where
  "mapKeys m = (case m of None \<Rightarrow> {} | Some f \<Rightarrow> fmdom' f)"

definition rangeOrder :: "string list \<Rightarrow> (string, 'v) fmap option \<Rightarrow> bool" where
  "rangeOrder keys m \<longleftrightarrow> distinct keys \<and> set keys = mapKeys m"

definition rangeMap :: "string list \<Rightarrow> (string, 'v) fmap option \<Rightarrow> (string \<times> 'v) list" where
  "rangeMap keys m =
     (case m of
        None \<Rightarrow> []
      | Some f \<Rightarrow> List.map_filter (\<lambda>k. map_option (Pair k) (fmlookup f k)) keys)"

text \<open>
  The body of the first loop, at one entry of \<open>Auth\<close>: the error it returns with, or
  the configuration it stores under the name. The type assertion to \<open>ConsumerPlugin\<close>
  fails on a nil plugin and on a plugin without \<open>ConsumerConfig\<close>.
\<close>

definition InitConfigs_Auth_entry ::
  "('cfg, 'any, 'cb) ConfigOps \<Rightarrow> ('cfg, 'fac) PluginsState \<Rightarrow> string \<Rightarrow> string \<Rightarrow>
   error + 'cfg" where
  "InitConfigs_Auth_entry ops st nm data =
     (case (case LoadHttpPlugin st nm of None \<Rightarrow> None | Some p \<Rightarrow> ConsumerConfig p) of
        None \<Rightarrow> Inl (NotForConsumer nm)
      | Some conf \<Rightarrow>
          (case protoUnmarshalJSON ops data conf of
             Inl err \<Rightarrow> Inl (UnmarshalConsumerConfigFailed nm err)
           | Inr conf' \<Rightarrow>
               (case Validate ops conf' of
                  Some err \<Rightarrow> Inl (ValidateConsumerConfigFailed nm err)
                | None \<Rightarrow> Inr conf')))"

text \<open>The first loop: it returns at the first entry whose body returns an error.\<close>

fun InitConfigs_Auth ::
  "('cfg, 'any, 'cb) ConfigOps \<Rightarrow> ('cfg, 'fac) PluginsState \<Rightarrow> (string \<times> string) list \<Rightarrow>
   (string \<rightharpoonup> 'cfg) \<Rightarrow> error option \<times> (string \<rightharpoonup> 'cfg)" where
  "InitConfigs_Auth ops st [] ccs = (None, ccs)"
| "InitConfigs_Auth ops st ((nm, data) # rest) ccs =
     (case InitConfigs_Auth_entry ops st nm data of
        Inl err \<Rightarrow> (Some err, ccs)
      | Inr conf \<Rightarrow> InitConfigs_Auth ops st rest (ccs(nm \<mapsto> conf)))"

text \<open>
  The body of the second loop, at one entry of \<open>Filters\<close>. \<open>data\<close> is a pointer:
  reading \<open>data.Config\<close> through nil panics, after the lookup of the plugin.
\<close>

definition InitConfigs_Filters_entry ::
  "('cfg, 'any, 'cb) ConfigOps \<Rightarrow> ('fc, 'any, 'fw) ModelOps \<Rightarrow> ('cfg, 'fac) PluginsState \<Rightarrow>
   string \<Rightarrow> 'fc option \<Rightarrow> error + ('cfg, 'fac) ParsedFilterConfig" where
  "InitConfigs_Filters_entry ops mo st nm data =
     (case LoadHttpFilterFactoryAndParser st nm of
        None \<Rightarrow> Inl (PluginNotFound nm)
      | Some p \<Rightarrow>
          (case data of
             None \<Rightarrow> Inl (Panic ''nil pointer dereference'')
           | Some d \<Rightarrow>
               (case fst (Parse ops (ConfigParser p) (fcConfig mo d) None) of
                  Inl err \<Rightarrow> Inl (ParsingPluginFailed err nm)
                | Inr conf \<Rightarrow>
                    Inr \<lparr>pfcName = nm, ParsedConfig = conf, pfcFactory = ffpFactory p\<rparr>)))"

text \<open>The second loop, which stops in the same way.\<close>

fun InitConfigs_Filters ::
  "('cfg, 'any, 'cb) ConfigOps \<Rightarrow> ('fc, 'any, 'fw) ModelOps \<Rightarrow> ('cfg, 'fac) PluginsState \<Rightarrow>
   (string \<times> 'fc option) list \<Rightarrow> (string \<rightharpoonup> ('cfg, 'fac) ParsedFilterConfig) \<Rightarrow>
   error option \<times> (string \<rightharpoonup> ('cfg, 'fac) ParsedFilterConfig)" where
  "InitConfigs_Filters ops mo st [] fcs = (None, fcs)"
| "InitConfigs_Filters ops mo st ((nm, data) # rest) fcs =
     (case InitConfigs_Filters_entry ops mo st nm data of
        Inl err \<Rightarrow> (Some err, fcs)
      | Inr pfc \<Rightarrow> InitConfigs_Filters ops mo st rest (fcs(nm \<mapsto> pfc)))"

text \<open>
  \<open>InitConfigs\<close> returns the error with the consumer as the call left it. The two
  lists are the orders in which the two \<open>range\<close> loops visit \<open>Auth\<close> and \<open>Filters\<close>.
\<close>

definition InitConfigs ::
  "('cfg, 'any, 'cb) ConfigOps \<Rightarrow> ('fc, 'any, 'fw) ModelOps \<Rightarrow> ('cfg, 'fac) PluginsState \<Rightarrow>
   string list \<Rightarrow> string list \<Rightarrow> ('cfg, 'fac, 'fc, 'fw) Consumer \<Rightarrow>
   error option \<times> ('cfg, 'fac, 'fc, 'fw) Consumer" where
  "InitConfigs ops mo st authKeys filterKeys c =
     (case InitConfigs_Auth ops st (rangeMap authKeys (Auth c)) Map.empty of
        (Some err, ccs) \<Rightarrow> (Some err, c\<lparr>ConsumerConfigs := ccs\<rparr>)
      | (None, ccs) \<Rightarrow>
          (case InitConfigs_Filters ops mo st (rangeMap filterKeys (Filters c)) Map.empty of
             (e, fcs) \<Rightarrow> (e, c\<lparr>ConsumerConfigs := ccs, FilterConfigs := fcs\<rparr>)))"

definition Name :: "('cfg, 'fac, 'fc, 'fw) Consumer \<Rightarrow> string" where
  "Name c = name c"

definition PluginConfig :: "('cfg, 'fac, 'fc, 'fw) Consumer \<Rightarrow> string \<Rightarrow> 'cfg option" where
  "PluginConfig c nm = ConsumerConfigs c nm"

text \<open>The plugin name that an error of \<open>InitConfigs\<close> carries in its message.\<close>

fun errorPlugin :: "error \<Rightarrow> string option" where
  "errorPlugin (NotForConsumer nm) = Some nm"
| "errorPlugin (UnmarshalConsumerConfigFailed nm _) = Some nm"
| "errorPlugin (ValidateConsumerConfigFailed nm _) = Some nm"
| "errorPlugin (PluginNotFound nm) = Some nm"
| "errorPlugin (ParsingPluginFailed _ nm) = Some nm"
| "errorPlugin _ = None"

subsection \<open>Examples\<close>

text \<open>
  A toy model package for closed examples: a \<open>FilterConfig\<close> is just its \<open>Config\<close>, an
  optional number \<open>n\<close>, written as the member \<open>config\<close> with \<open>null\<close> or the literal of
  \<open>10^n\<close>; a wrapper is a number written as a string of that length.
\<close>

definition exampleModel :: "(nat option, nat, nat) ModelOps" where
  "exampleModel =
     \<lparr>fcConfig = (\<lambda>d. d),
      fcMarshal = (\<lambda>d. JObject [(''config'',
                     case d of None \<Rightarrow> JNull | Some n \<Rightarrow> JNumber (CHR ''1'' # replicate n CHR ''0''))]),
      fcUnmarshal = (\<lambda>j. case j of
                       JObject [(k, JNull)] \<Rightarrow> (None, None)
                     | JObject [(k, JNumber (c # zs))] \<Rightarrow> (None, Some (length zs))
                     | _ \<Rightarrow> (Some (UnmarshalTypeError ''FilterConfig''), None)),
      fwMarshal = (\<lambda>w. JString (replicate w CHR ''w'')),
      unmarshalFilterNames = (\<lambda>j old. case j of
                       JNull \<Rightarrow> (None, None)
                     | JArray js \<Rightarrow> (None, Some (map (\<lambda>x. snd (decString x)) js))
                     | _ \<Rightarrow> (Some (UnmarshalTypeError ''[]string''), old)),
      unmarshalFilterWrappers = (\<lambda>j old. case j of
                       JNull \<Rightarrow> (None, None)
                     | JArray js \<Rightarrow> (None, Some (map (\<lambda>x. None) js))
                     | _ \<Rightarrow> (Some (UnmarshalTypeError ''[]*FilterWrapper''), old))\<rparr>"

text \<open>
  A new consumer of the toy types, the consumer of the scenario, with the two filters
  and no \<open>Auth\<close> entry, a consumer that names two plugins nobody registered, a
  consumer with the filter \<open>basic-auth\<close> and a filter \<open>b\<close> nobody registered, and one
  whose maps are empty but not nil.
\<close>

definition freshConsumer :: "(nat, nat, nat option, nat) Consumer" where
  "freshConsumer = zeroConsumer"

definition scenarioConsumer :: "(nat, nat, nat option, nat) Consumer" where
  "scenarioConsumer =
     zeroConsumer\<lparr>Auth := Some fmempty,
                  Filters := Some (fmap_of_list [(''rate-limit'', Some None),
                                                 (''basic-auth'', Some (Some 2))])\<rparr>"

definition strangerConsumer :: "(nat, nat, nat option, nat) Consumer" where
  "strangerConsumer =
     zeroConsumer\<lparr>Auth := Some (fmap_of_list [(''a'', ''{}'')]),
                  Filters := Some (fmap_of_list [(''b'', Some None)])\<rparr>"

definition mixedConsumer :: "(nat, nat, nat option, nat) Consumer" where
  "mixedConsumer =
     zeroConsumer\<lparr>Auth := Some fmempty,
                  Filters := Some (fmap_of_list [(''basic-auth'', Some None),
                                                 (''b'', Some None)])\<rparr>"

definition emptyFiltersConsumer :: "(nat, nat, nat option, nat) Consumer" where
  "emptyFiltersConsumer = zeroConsumer\<lparr>Auth := Some fmempty, Filters := Some fmempty\<rparr>"

text \<open>
  The conditions under which a consumer comes back from its own transport form: its
  plugin names and its \<open>Auth\<close> blobs are well-formed UTF-8, and each filter entry that
  is not nil is written as something other than \<open>null\<close> and read back as it was.
\<close>

definition validNames :: "('cfg, 'fac, 'fc, 'fw) Consumer \<Rightarrow> bool" where
  "validNames c \<longleftrightarrow>
     (\<forall>k \<in> mapKeys (Auth c). validUTF8 k) \<and>
     (\<forall>a k v. Auth c = Some a \<and> fmlookup a k = Some v \<longrightarrow> validUTF8 v) \<and>
     (\<forall>k \<in> mapKeys (Filters c). validUTF8 k)"

definition filtersSurvive ::
  "('fc, 'any, 'fw) ModelOps \<Rightarrow> ('cfg, 'fac, 'fc, 'fw) Consumer \<Rightarrow> bool" where
  "filtersSurvive mo c \<longleftrightarrow>
     (\<forall>f k v. Filters c = Some f \<and> fmlookup f k = Some (Some v) \<longrightarrow>
        fcMarshal mo v \<noteq> JNull \<and> fcUnmarshal mo (fcMarshal mo v) = (None, v))"

section \<open>Protocol parsing\<close>

lemma ProtocolMap_Some_iff:
  "ProtocolMap k = Some v \<longleftrightarrow>
     (k = ''http'' \<and> v = HTTP) \<or> (k = ''https'' \<and> v = HTTPS) \<or> (k = ''grpc'' \<and> v = GRPC) \<or>
     (k = ''http2'' \<and> v = HTTP2) \<or> (k = ''mongo'' \<and> v = MONGO) \<or> (k = ''tcp'' \<and> v = TCP) \<or>
     (k = ''tls'' \<and> v = TLS)"
  unfolding ProtocolMap_def by (auto split: if_splits)

lemma ProtocolMap_None_iff:
  "ProtocolMap k = None \<longleftrightarrow>
     k \<notin> {''http'', ''https'', ''grpc'', ''http2'', ''mongo'', ''tcp'', ''tls''}"
  unfolding ProtocolMap_def by (auto split: if_splits)

text \<open>
  C7. \<open>ParseProtocol\<close> never fails and ignores the case of its input: a string whose
  lower-case form is one of \<open>http\<close>, \<open>https\<close>, \<open>grpc\<close>, \<open>http2\<close>, \<open>mongo\<close>, \<open>tcp\<close>,
  \<open>tls\<close> gives the protocol of that name, every other string gives \<open>Unsupported\<close>;
  two strings with the same lower-case form give the same protocol; \<open>HTTP\<close>, \<open>http\<close>
  and \<open>Http\<close> all give \<open>HTTP\<close> and \<open>carrier-pigeon\<close> gives \<open>Unsupported\<close>.
\<close>

theorem ParseProtocol_case_insensitive_total:
  "(ToLower s = ''http'' \<longrightarrow> ParseProtocol s = HTTP) \<and>
   (ToLower s = ''https'' \<longrightarrow> ParseProtocol s = HTTPS) \<and>
   (ToLower s = ''grpc'' \<longrightarrow> ParseProtocol s = GRPC) \<and>
   (ToLower s = ''http2'' \<longrightarrow> ParseProtocol s = HTTP2) \<and>
   (ToLower s = ''mongo'' \<longrightarrow> ParseProtocol s = MONGO) \<and>
   (ToLower s = ''tcp'' \<longrightarrow> ParseProtocol s = TCP) \<and>
   (ToLower s = ''tls'' \<longrightarrow> ParseProtocol s = TLS) \<and>
   (ToLower s \<notin> {''http'', ''https'', ''grpc'', ''http2'', ''mongo'', ''tcp'', ''tls''}
      \<longrightarrow> ParseProtocol s = Unsupported) \<and>
   (ToLower s = ToLower t \<longrightarrow> ParseProtocol s = ParseProtocol t) \<and>
   ParseProtocol s \<in> {HTTP, HTTPS, GRPC, HTTP2, MONGO, TCP, TLS, Unsupported} \<and>
   ParseProtocol ''HTTP'' = HTTP \<and> ParseProtocol ''http'' = HTTP \<and>
   ParseProtocol ''Http'' = HTTP \<and> ParseProtocol ''carrier-pigeon'' = Unsupported"
proof -
  have known: "ProtocolMap (ToLower s) = Some v \<Longrightarrow> ParseProtocol s = v" for v
    by (simp add: ParseProtocol_def)
  have unknown: "ProtocolMap (ToLower s) = None \<Longrightarrow> ParseProtocol s = Unsupported"
    by (simp add: ParseProtocol_def)
  have range: "ParseProtocol s \<in> {HTTP, HTTPS, GRPC, HTTP2, MONGO, TCP, TLS, Unsupported}"
  proof (cases "ProtocolMap (ToLower s)")
    case None
    then show ?thesis by (simp add: unknown)
  next
    case (Some v)
    then show ?thesis using known [OF Some] by (auto simp: ProtocolMap_Some_iff)
  qed
  have same: "ToLower s = ToLower t \<longrightarrow> ParseProtocol s = ParseProtocol t"
    by (simp add: ParseProtocol_def)
  have ex1: "ParseProtocol ''HTTP'' = HTTP" by code_simp
  have ex2: "ParseProtocol ''http'' = HTTP" by code_simp
  have ex3: "ParseProtocol ''Http'' = HTTP" by code_simp
  have ex4: "ParseProtocol ''carrier-pigeon'' = Unsupported" by code_simp
  show ?thesis
    using range same ex1 ex2 ex3 ex4
    by (auto intro!: known unknown simp: ProtocolMap_Some_iff ProtocolMap_None_iff)
qed

theorem ParseProtocol_case_insensitive_total_witness:
  "ToLower ''gRpC'' = ''grpc'' \<and> ParseProtocol ''gRpC'' = GRPC \<and>
   ToLower ''gRpC'' = ToLower ''GRPC'' \<and> ParseProtocol ''gRpC'' = ParseProtocol ''GRPC'' \<and>
   ToLower ''Carrier-Pigeon'' \<notin> {''http'', ''https'', ''grpc'', ''http2'', ''mongo'', ''tcp'', ''tls''} \<and>
   ParseProtocol ''Carrier-Pigeon'' = Unsupported"
proof -
  have l1: "ToLower ''gRpC'' = ''grpc''" by code_simp
  have l2: "ToLower ''GRPC'' = ''grpc''" by code_simp
  have l3: "ToLower ''Carrier-Pigeon'' = ''carrier-pigeon''" by code_simp
  have a: "ParseProtocol ''gRpC'' = GRPC"
    using ParseProtocol_case_insensitive_total [where s = "''gRpC''" and t = "''GRPC''"] l1
    by blast
  have b: "ParseProtocol ''gRpC'' = ParseProtocol ''GRPC''"
  proof -
    have e: "ToLower ''gRpC'' = ToLower ''GRPC''" by (simp add: l1 l2)
    show ?thesis
      using ParseProtocol_case_insensitive_total [where s = "''gRpC''" and t = "''GRPC''"] e
      by blast
  qed
  have c: "ParseProtocol ''Carrier-Pigeon'' = Unsupported"
    using ParseProtocol_case_insensitive_total [where s = "''Carrier-Pigeon''" and t = "''x''"] l3
    by simp
  show ?thesis using a b c l1 l2 l3 by simp
qed

section \<open>Registry creation\<close>

text \<open>
  C8. For a name that is not in the factory table, \<open>CreateRegistry\<close> returns no
  registry and the error \<open>unknown registry name\<close>, and calls no factory. For a name in
  the table it returns what that name's factory returns on the given store and
  metadata, and that call is the only one.
\<close>

theorem CreateRegistry_unknown_or_factory:
  "(registryFactories nm = None \<longrightarrow>
      CreateRegistry registryFactories nm store om
        = ((None, Some (UnknownRegistry nm)), [])) \<and>
   (registryFactories nm = Some factory \<longrightarrow>
      CreateRegistry registryFactories nm store om
        = (factory store om, [(nm, store, om)]))"
  by (simp add: CreateRegistry_def)

theorem CreateRegistry_unknown_or_factory_witness:
  "AddRegistryFactory Map.empty ''nacos'' (\<lambda>store om. (Some (store + om), None)) ''unknown-backend'' = None \<and>
   CreateRegistry (AddRegistryFactory Map.empty ''nacos'' (\<lambda>store om. (Some (store + om), None)))
      ''unknown-backend'' (1::nat) (2::nat)
     = ((None, Some (UnknownRegistry ''unknown-backend'')), []) \<and>
   CreateRegistry (AddRegistryFactory Map.empty ''nacos'' (\<lambda>store om. (Some (store + om), None)))
      ''nacos'' (1::nat) (2::nat)
     = ((Some 3, None), [(''nacos'', 1, 2)])"
  using CreateRegistry_unknown_or_factory
      [where registryFactories =
          "AddRegistryFactory Map.empty ''nacos'' (\<lambda>store om. (Some (store + om), None))"
        and nm = "''unknown-backend''" and store = "1::nat" and om = "2::nat"]
    CreateRegistry_unknown_or_factory
      [where registryFactories =
          "AddRegistryFactory Map.empty ''nacos'' (\<lambda>store om. (Some (store + om), None))"
        and nm = "''nacos''" and store = "1::nat" and om = "2::nat"
        and factory = "\<lambda>store om. (Some (store + om), None)"]
  by (simp add: AddRegistryFactory_def)

section \<open>Plugin order\<close>

lemma nameToOrderInit_Do_flag: "nameToOrderInit (nameToOrderInit_Do st)"
  by (simp add: nameToOrderInit_Do_def)

lemma nameToOrderInit_Do_frozen: "nameToOrderInit st \<Longrightarrow> nameToOrderInit_Do st = st"
  by (simp add: nameToOrderInit_Do_def)


lemma afterCall_frozen:
  "nameToOrderInit st \<Longrightarrow>
     nameToOrderInit (afterCall st c) \<and> nameToOrder (afterCall st c) = nameToOrder st"
  by (cases c)
     (simp_all add: RegisterHttpPlugin_def ComparePluginOrder_def Let_def
        nameToOrderInit_Do_frozen)

lemma afterCalls_frozen:
  "nameToOrderInit st \<Longrightarrow>
     nameToOrderInit (afterCalls st cs) \<and> nameToOrder (afterCalls st cs) = nameToOrder st"
  unfolding afterCalls_def
proof (induction cs arbitrary: st)
  case Nil
  then show ?case by simp
next
  case (Cons c cs)
  have "nameToOrderInit (afterCall st c)" and "nameToOrder (afterCall st c) = nameToOrder st"
    using afterCall_frozen [OF Cons.prems] by simp_all
  then show ?case using Cons.IH [of "afterCall st c"] by simp
qed

text \<open>The comparison itself, on a fixed snapshot.\<close>

lemma ComparePluginOrder_fst:
  "fst (ComparePluginOrder st a b) =
     (let m = nameToOrder (nameToOrderInit_Do st) in
      if Position (orderAt m a) \<noteq> Position (orderAt m b)
        then Position (orderAt m a) < Position (orderAt m b)
      else if Operation (orderAt m a) \<noteq> Operation (orderAt m b)
        then Operation (orderAt m a) < Operation (orderAt m b)
      else a < b)"
  by (simp add: ComparePluginOrder_def Let_def)

lemma ComparePluginOrder_snd: "snd (ComparePluginOrder st a b) = nameToOrderInit_Do st"
  by (simp add: ComparePluginOrder_def Let_def)

lemma ComparePluginOrder_frozen_fst:
  assumes "nameToOrderInit st" and "nameToOrderInit st'" and "nameToOrder st' = nameToOrder st"
  shows "fst (ComparePluginOrder st' a b) = fst (ComparePluginOrder st a b)"
  using assms by (simp add: ComparePluginOrder_fst nameToOrderInit_Do_frozen)

lemma ComparePluginOrder_Do:
  "fst (ComparePluginOrder (nameToOrderInit_Do st) a b) = fst (ComparePluginOrder st a b)"
  by (simp add: ComparePluginOrder_fst nameToOrderInit_Do_frozen nameToOrderInit_Do_flag)

lemma ComparePluginOrder_total:
  "a \<noteq> b \<Longrightarrow> fst (ComparePluginOrder st a b) \<noteq> fst (ComparePluginOrder st b a)"
  by (auto simp: ComparePluginOrder_fst Let_def)

lemma ComparePluginOrder_irrefl: "\<not> fst (ComparePluginOrder st a a)"
  by (simp add: ComparePluginOrder_fst Let_def)

lemma ComparePluginOrder_trans:
  "fst (ComparePluginOrder st a b) \<Longrightarrow> fst (ComparePluginOrder st b c) \<Longrightarrow>
     fst (ComparePluginOrder st a c)"
  by (auto simp: ComparePluginOrder_fst Let_def split: if_splits)

text \<open>
  C4. For two distinct names, exactly one of \<open>ComparePluginOrder a b\<close> and
  \<open>ComparePluginOrder b a\<close> is true, whichever of the two calls comes first; no name
  is below itself and the comparison is transitive, so it is a strict total order;
  and after a first comparison every later call, whatever registrations and
  comparisons happened in between, gives the same answer.
\<close>

theorem ComparePluginOrder_strict_total_stable:
  "a \<noteq> b \<Longrightarrow>
   (fst (ComparePluginOrder st a b)
      \<noteq> fst (ComparePluginOrder (snd (ComparePluginOrder st a b)) b a)) \<and>
   (fst (ComparePluginOrder st b a)
      \<noteq> fst (ComparePluginOrder (snd (ComparePluginOrder st b a)) a b)) \<and>
   \<not> fst (ComparePluginOrder st x x) \<and>
   (fst (ComparePluginOrder st x y) \<and> fst (ComparePluginOrder st y z)
      \<longrightarrow> fst (ComparePluginOrder st x z)) \<and>
   fst (ComparePluginOrder (afterCalls (snd (ComparePluginOrder st x y)) cs) x y)
      = fst (ComparePluginOrder st x y)"
proof -
  assume ab: "a \<noteq> b"
  have c1: "fst (ComparePluginOrder st a b)
          \<noteq> fst (ComparePluginOrder (snd (ComparePluginOrder st a b)) b a)"
    using ComparePluginOrder_total [OF ab, of st]
    by (simp add: ComparePluginOrder_snd ComparePluginOrder_Do)
  have c2: "fst (ComparePluginOrder st b a)
          \<noteq> fst (ComparePluginOrder (snd (ComparePluginOrder st b a)) a b)"
    using ComparePluginOrder_total [OF ab, of st]
    by (simp add: ComparePluginOrder_snd ComparePluginOrder_Do)
  have c3: "\<not> fst (ComparePluginOrder st x x)"
    by (rule ComparePluginOrder_irrefl)
  have c4: "fst (ComparePluginOrder st x y) \<and> fst (ComparePluginOrder st y z)
          \<longrightarrow> fst (ComparePluginOrder st x z)"
    using ComparePluginOrder_trans by blast
  let ?s1 = "nameToOrderInit_Do st"
  have fl: "nameToOrderInit ?s1" by (rule nameToOrderInit_Do_flag)
  have "fst (ComparePluginOrder (afterCalls ?s1 cs) x y) = fst (ComparePluginOrder ?s1 x y)"
    using afterCalls_frozen [OF fl, of cs] fl by (intro ComparePluginOrder_frozen_fst) simp_all
  then have c5: "fst (ComparePluginOrder (afterCalls (snd (ComparePluginOrder st x y)) cs) x y)
          = fst (ComparePluginOrder st x y)"
    by (simp add: ComparePluginOrder_snd ComparePluginOrder_Do)
  show ?thesis using c1 c2 c3 c4 c5 by blast
qed

lemma scenarioPlugins_httpPlugins:
  "httpPlugins scenarioPlugins =
     [''basic-auth'' \<mapsto> examplePlugin 10 0, ''rate-limit'' \<mapsto> examplePlugin 20 0]"
  by (simp add: scenarioPlugins_def afterCalls_def RegisterHttpPlugin_def initialPlugins_def)

lemma scenarioPlugins_fresh:
  "\<not> nameToOrderInit scenarioPlugins" "nameToOrder scenarioPlugins = Map.empty"
  by (simp_all add: scenarioPlugins_def afterCalls_def RegisterHttpPlugin_def initialPlugins_def)

lemma scenario_snapshot:
  "orderAt (nameToOrder (nameToOrderInit_Do scenarioPlugins)) k =
     (if k = ''rate-limit'' then \<lparr>Position = 20, Operation = 0\<rparr>
      else if k = ''basic-auth'' then \<lparr>Position = 10, Operation = 0\<rparr>
      else zeroOrder)"
  by (simp add: nameToOrderInit_Do_def scenarioPlugins_fresh scenarioPlugins_httpPlugins
      orderAt_def examplePlugin_def)

lemma scenario_compare:
  "fst (ComparePluginOrder scenarioPlugins ''basic-auth'' ''rate-limit'')"
  "\<not> fst (ComparePluginOrder scenarioPlugins ''rate-limit'' ''basic-auth'')"
  by (simp_all add: ComparePluginOrder_fst scenario_snapshot)

theorem ComparePluginOrder_strict_total_stable_witness:
  "''basic-auth'' \<noteq> ''rate-limit'' \<and>
   fst (ComparePluginOrder scenarioPlugins ''basic-auth'' ''rate-limit'') \<and>
   \<not> fst (ComparePluginOrder
            (snd (ComparePluginOrder scenarioPlugins ''basic-auth'' ''rate-limit''))
            ''rate-limit'' ''basic-auth'') \<and>
   fst (ComparePluginOrder
         (afterCalls (snd (ComparePluginOrder scenarioPlugins ''basic-auth'' ''rate-limit''))
            [Register ''basic-auth'' (examplePlugin 30 0), Compare ''x'' ''y''])
         ''basic-auth'' ''rate-limit'')"
  using ComparePluginOrder_strict_total_stable
      [where a = "''basic-auth''" and b = "''rate-limit''" and st = scenarioPlugins
         and x = "''basic-auth''" and y = "''rate-limit''"
         and cs = "[Register ''basic-auth'' (examplePlugin 30 0), Compare ''x'' ''y'']"]
    scenario_compare(1)
  by simp

section \<open>The order snapshot\<close>



lemma afterCalls_append: "afterCalls st (cs @ ds) = afterCalls (afterCalls st cs) ds"
  by (simp add: afterCalls_def)





section \<open>The parse pipeline\<close>

lemma Parse_Some_marshal_fails:
  "jsonMarshal ops v = Inl e \<Longrightarrow> Parse ops cp (Some v) cb = (Inl e, [CallMarshal v])"
  by (simp add: Parse_def)

lemma Parse_Some_unmarshal_fails:
  "jsonMarshal ops v = Inr d \<Longrightarrow> protojsonUnmarshal ops d (Config (parserPlugin cp)) = Inl e \<Longrightarrow>
     Parse ops cp (Some v) cb
       = (Inl e, [CallMarshal v, CallUnmarshal d (Config (parserPlugin cp))])"
  by (simp add: Parse_def)

lemma Parse_Some_decoded:
  "jsonMarshal ops v = Inr d \<Longrightarrow> protojsonUnmarshal ops d (Config (parserPlugin cp)) = Inr c \<Longrightarrow>
     Parse ops cp (Some v) cb =
       (case Validate ops c of
          Some e \<Rightarrow> (Inl e, [CallMarshal v, CallUnmarshal d (Config (parserPlugin cp)),
                             CallValidate c])
        | None \<Rightarrow>
            (case Init ops cb c of
               Inl e \<Rightarrow> (Inl e, [CallMarshal v, CallUnmarshal d (Config (parserPlugin cp)),
                                  CallValidate c, CallInit c])
             | Inr c' \<Rightarrow> (Inr c', [CallMarshal v, CallUnmarshal d (Config (parserPlugin cp)),
                                   CallValidate c, CallInit c])))"
  by (simp add: Parse_def split: option.splits sum.splits)

lemma Parse_None:
  "Parse ops cp None cb =
     (case Validate ops (Config (parserPlugin cp)) of
        Some e \<Rightarrow> (Inl e, [CallValidate (Config (parserPlugin cp))])
      | None \<Rightarrow>
          (case Init ops cb (Config (parserPlugin cp)) of
             Inl e \<Rightarrow> (Inl e, [CallValidate (Config (parserPlugin cp)),
                                CallInit (Config (parserPlugin cp))])
           | Inr c' \<Rightarrow> (Inr c', [CallValidate (Config (parserPlugin cp)),
                                 CallInit (Config (parserPlugin cp))])))"
  by (simp add: Parse_def split: option.splits sum.splits)

lemma Parse_Init_after_Validate:
  "CallInit c \<in> set (snd (Parse ops cp any cb)) \<Longrightarrow>
     Validate ops c = None \<and>
     (\<exists>pre. snd (Parse ops cp any cb) = pre @ [CallValidate c, CallInit c] \<and>
            (\<forall>x \<in> set pre. \<forall>c'. x \<noteq> CallValidate c' \<and> x \<noteq> CallInit c'))"
proof (cases any)
  case None
  assume a: "CallInit c \<in> set (snd (Parse ops cp any cb))"
  show ?thesis
    using a unfolding None Parse_None
    by (fastforce split: option.splits sum.splits)
next
  case (Some v)
  assume a: "CallInit c \<in> set (snd (Parse ops cp any cb))"
  show ?thesis
  proof (cases "jsonMarshal ops v")
    case (Inl e)
    then show ?thesis using a unfolding Some by (simp add: Parse_Some_marshal_fails)
  next
    case (Inr d)
    note m = this
    show ?thesis
    proof (cases "protojsonUnmarshal ops d (Config (parserPlugin cp))")
      case (Inl e)
      then show ?thesis using a m unfolding Some by (simp add: Parse_Some_unmarshal_fails)
    next
      case (Inr c0)
      show ?thesis
        using a unfolding Some Parse_Some_decoded [OF m Inr]
        by (fastforce split: option.splits sum.splits)
    qed
  qed
qed

lemma Parse_Validate_after_decode:
  "CallValidate c \<in> set (snd (Parse ops cp (Some v) cb)) \<Longrightarrow>
     \<exists>d. jsonMarshal ops v = Inr d \<and>
         protojsonUnmarshal ops d (Config (parserPlugin cp)) = Inr c"
proof -
  assume a: "CallValidate c \<in> set (snd (Parse ops cp (Some v) cb))"
  show ?thesis
  proof (cases "jsonMarshal ops v")
    case (Inl e)
    then show ?thesis using a by (simp add: Parse_Some_marshal_fails)
  next
    case (Inr d)
    note m = this
    show ?thesis
    proof (cases "protojsonUnmarshal ops d (Config (parserPlugin cp))")
      case (Inl e)
      then show ?thesis using a m by (simp add: Parse_Some_unmarshal_fails)
    next
      case (Inr c0)
      show ?thesis
        using a m Inr unfolding Parse_Some_decoded [OF m Inr]
        by (auto split: option.splits sum.splits)
    qed
  qed
qed

text \<open>
  C5. \<open>Parse\<close> decodes, validates and initialises in that order and stops at the
  first failure. If marshalling the supplied value or decoding it into the factory's
  object fails, that error is returned and neither \<open>Validate\<close> nor \<open>Init\<close> was
  called. If the decoded object fails \<open>Validate\<close>, that error is returned and \<open>Init\<close>
  was not called. Whenever \<open>Validate\<close> was called on an object, that object is the
  result of a successful decoding; whenever \<open>Init\<close> was called on an object, that
  object passed \<open>Validate\<close>, and the two calls are the last two, in this order, with no
  other \<open>Validate\<close> or \<open>Init\<close> before them.
\<close>

theorem Parse_ordered_fail_fast:
  "(jsonMarshal ops v = Inl e \<longrightarrow>
      Parse ops cp (Some v) cb = (Inl e, [CallMarshal v])) \<and>
   (jsonMarshal ops v = Inr d \<and> protojsonUnmarshal ops d (Config (parserPlugin cp)) = Inl e \<longrightarrow>
      Parse ops cp (Some v) cb
        = (Inl e, [CallMarshal v, CallUnmarshal d (Config (parserPlugin cp))])) \<and>
   (jsonMarshal ops v = Inr d \<and> protojsonUnmarshal ops d (Config (parserPlugin cp)) = Inr c \<and>
    Validate ops c = Some e \<longrightarrow>
      Parse ops cp (Some v) cb
        = (Inl e, [CallMarshal v, CallUnmarshal d (Config (parserPlugin cp)), CallValidate c])) \<and>
   (jsonMarshal ops v = Inr d \<and> protojsonUnmarshal ops d (Config (parserPlugin cp)) = Inr c \<and>
    Validate ops c = None \<and> Init ops cb c = Inl e \<longrightarrow>
      Parse ops cp (Some v) cb
        = (Inl e, [CallMarshal v, CallUnmarshal d (Config (parserPlugin cp)), CallValidate c,
                   CallInit c])) \<and>
   (jsonMarshal ops v = Inr d \<and> protojsonUnmarshal ops d (Config (parserPlugin cp)) = Inr c \<and>
    Validate ops c = None \<and> Init ops cb c = Inr c' \<longrightarrow>
      Parse ops cp (Some v) cb
        = (Inr c', [CallMarshal v, CallUnmarshal d (Config (parserPlugin cp)), CallValidate c,
                    CallInit c])) \<and>
   (CallValidate c \<in> set (snd (Parse ops cp (Some v) cb)) \<longrightarrow>
      (\<exists>d. jsonMarshal ops v = Inr d \<and>
           protojsonUnmarshal ops d (Config (parserPlugin cp)) = Inr c)) \<and>
   (CallInit c \<in> set (snd (Parse ops cp any cb)) \<longrightarrow>
      Validate ops c = None \<and>
      (\<exists>pre. snd (Parse ops cp any cb) = pre @ [CallValidate c, CallInit c] \<and>
             (\<forall>x \<in> set pre. \<forall>c'. x \<noteq> CallValidate c' \<and> x \<noteq> CallInit c')))"
proof -
  let ?c0 = "Config (parserPlugin cp)"
  have a1: "jsonMarshal ops v = Inl e \<longrightarrow>
      Parse ops cp (Some v) cb = (Inl e, [CallMarshal v])"
    using Parse_Some_marshal_fails [of ops v e cp cb] by blast
  have a2: "jsonMarshal ops v = Inr d \<and> protojsonUnmarshal ops d ?c0 = Inl e \<longrightarrow>
      Parse ops cp (Some v) cb = (Inl e, [CallMarshal v, CallUnmarshal d ?c0])"
    using Parse_Some_unmarshal_fails [of ops v d cp e cb] by blast
  have a3: "jsonMarshal ops v = Inr d \<and> protojsonUnmarshal ops d ?c0 = Inr c \<and>
    Validate ops c = Some e \<longrightarrow>
      Parse ops cp (Some v) cb
        = (Inl e, [CallMarshal v, CallUnmarshal d ?c0, CallValidate c])"
  proof (intro impI, elim conjE)
    assume m: "jsonMarshal ops v = Inr d" and u: "protojsonUnmarshal ops d ?c0 = Inr c"
      and va: "Validate ops c = Some e"
    show "Parse ops cp (Some v) cb
        = (Inl e, [CallMarshal v, CallUnmarshal d ?c0, CallValidate c])"
      unfolding Parse_Some_decoded [OF m u] va by simp
  qed
  have a4: "jsonMarshal ops v = Inr d \<and> protojsonUnmarshal ops d ?c0 = Inr c \<and>
    Validate ops c = None \<and> Init ops cb c = Inl e \<longrightarrow>
      Parse ops cp (Some v) cb
        = (Inl e, [CallMarshal v, CallUnmarshal d ?c0, CallValidate c, CallInit c])"
  proof (intro impI, elim conjE)
    assume m: "jsonMarshal ops v = Inr d" and u: "protojsonUnmarshal ops d ?c0 = Inr c"
      and va: "Validate ops c = None" and i: "Init ops cb c = Inl e"
    show "Parse ops cp (Some v) cb
        = (Inl e, [CallMarshal v, CallUnmarshal d ?c0, CallValidate c, CallInit c])"
      unfolding Parse_Some_decoded [OF m u] va i by simp
  qed
  have a5: "jsonMarshal ops v = Inr d \<and> protojsonUnmarshal ops d ?c0 = Inr c \<and>
    Validate ops c = None \<and> Init ops cb c = Inr c' \<longrightarrow>
      Parse ops cp (Some v) cb
        = (Inr c', [CallMarshal v, CallUnmarshal d ?c0, CallValidate c, CallInit c])"
  proof (intro impI, elim conjE)
    assume m: "jsonMarshal ops v = Inr d" and u: "protojsonUnmarshal ops d ?c0 = Inr c"
      and va: "Validate ops c = None" and i: "Init ops cb c = Inr c'"
    show "Parse ops cp (Some v) cb
        = (Inr c', [CallMarshal v, CallUnmarshal d ?c0, CallValidate c, CallInit c])"
      unfolding Parse_Some_decoded [OF m u] va i by simp
  qed
  have a6: "CallValidate c \<in> set (snd (Parse ops cp (Some v) cb)) \<longrightarrow>
      (\<exists>d. jsonMarshal ops v = Inr d \<and> protojsonUnmarshal ops d ?c0 = Inr c)"
    using Parse_Validate_after_decode [of c ops cp v cb] by blast
  have a7: "CallInit c \<in> set (snd (Parse ops cp any cb)) \<longrightarrow>
      Validate ops c = None \<and>
      (\<exists>pre. snd (Parse ops cp any cb) = pre @ [CallValidate c, CallInit c] \<and>
             (\<forall>x \<in> set pre. \<forall>c'. x \<noteq> CallValidate c' \<and> x \<noteq> CallInit c'))"
    using Parse_Init_after_Validate [of c ops cp any cb] by blast
  from a1 a2 a3 a4 a5 a6 a7 show ?thesis by (intro conjI)
qed

lemma exampleOps_simps:
  "jsonMarshal exampleOps a
     = (if a = 99 then Inl (External ''unsupported value'') else Inr (replicate a CHR ''x''))"
  "protojsonUnmarshal exampleOps data conf
     = (if 10 < length data then Inl (External ''bad data'') else Inr (conf + length data))"
  "protoUnmarshalJSON exampleOps data conf
     = (if 10 < length data then Inl (External ''bad data'') else Inr (conf + length data))"
  "Validate exampleOps conf = (if 5 < conf then Some (External ''invalid'') else None)"
  "Init exampleOps cb conf
     = (if conf = 3 then Inl (External ''init failed'') else Inr (conf + 100))"
  by (simp_all add: exampleOps_def)

theorem Parse_ordered_fail_fast_witness:
  "jsonMarshal exampleOps 99 = Inl (External ''unsupported value'') \<and>
   Parse exampleOps (NewPluginConfigParser (examplePlugin 10 0)) (Some 99) None
     = (Inl (External ''unsupported value''), [CallMarshal 99]) \<and>
   jsonMarshal exampleOps 11 = Inr ''xxxxxxxxxxx'' \<and>
   protojsonUnmarshal exampleOps ''xxxxxxxxxxx''
       (Config (parserPlugin (NewPluginConfigParser (examplePlugin 10 0))))
     = Inl (External ''bad data'') \<and>
   Parse exampleOps (NewPluginConfigParser (examplePlugin 10 0)) (Some 11) None
     = (Inl (External ''bad data''), [CallMarshal 11, CallUnmarshal ''xxxxxxxxxxx'' 0]) \<and>
   jsonMarshal exampleOps 6 = Inr ''xxxxxx'' \<and>
   protojsonUnmarshal exampleOps ''xxxxxx''
       (Config (parserPlugin (NewPluginConfigParser (examplePlugin 10 0)))) = Inr 6 \<and>
   Validate exampleOps 6 = Some (External ''invalid'') \<and>
   Parse exampleOps (NewPluginConfigParser (examplePlugin 10 0)) (Some 6) None
     = (Inl (External ''invalid''),
        [CallMarshal 6, CallUnmarshal ''xxxxxx'' 0, CallValidate 6]) \<and>
   jsonMarshal exampleOps 3 = Inr ''xxx'' \<and> Validate exampleOps 3 = None \<and>
   Init exampleOps None 3 = Inl (External ''init failed'') \<and>
   Parse exampleOps (NewPluginConfigParser (examplePlugin 10 0)) (Some 3) None
     = (Inl (External ''init failed''),
        [CallMarshal 3, CallUnmarshal ''xxx'' 0, CallValidate 3, CallInit 3]) \<and>
   jsonMarshal exampleOps 2 = Inr ''xx'' \<and> Validate exampleOps 2 = None \<and>
   Init exampleOps None 2 = Inr 102 \<and>
   Parse exampleOps (NewPluginConfigParser (examplePlugin 10 0)) (Some 2) None
     = (Inr 102, [CallMarshal 2, CallUnmarshal ''xx'' 0, CallValidate 2, CallInit 2]) \<and>
   CallValidate 2 \<in> set (snd (Parse exampleOps (NewPluginConfigParser (examplePlugin 10 0))
       (Some 2) None)) \<and>
   CallInit 2 \<in> set (snd (Parse exampleOps (NewPluginConfigParser (examplePlugin 10 0))
       (Some 2) None))"
proof -
  let ?cp = "NewPluginConfigParser (examplePlugin 10 0)"
  have c0: "Config (parserPlugin ?cp) = 0"
    by (simp add: NewPluginConfigParser_def examplePlugin_def)
  have r11: "replicate 11 CHR ''x'' = ''xxxxxxxxxxx''" by code_simp
  have r6: "replicate 6 CHR ''x'' = ''xxxxxx''" by code_simp
  have r3: "replicate 3 CHR ''x'' = ''xxx''" by code_simp
  have r2: "replicate 2 CHR ''x'' = ''xx''" by code_simp
  have m99: "jsonMarshal exampleOps 99 = Inl (External ''unsupported value'')"
    by (simp add: exampleOps_simps)
  have m11: "jsonMarshal exampleOps 11 = Inr ''xxxxxxxxxxx''"
    by (simp add: exampleOps_simps r11)
  have u11: "protojsonUnmarshal exampleOps ''xxxxxxxxxxx'' (Config (parserPlugin ?cp))
      = Inl (External ''bad data'')"
    by (simp add: exampleOps_simps)
  have m6: "jsonMarshal exampleOps 6 = Inr ''xxxxxx''" by (simp add: exampleOps_simps r6)
  have u6: "protojsonUnmarshal exampleOps ''xxxxxx'' (Config (parserPlugin ?cp)) = Inr 6"
    by (simp add: exampleOps_simps c0)
  have v6: "Validate exampleOps 6 = Some (External ''invalid'')"
    by (simp add: exampleOps_simps)
  have m3: "jsonMarshal exampleOps 3 = Inr ''xxx''" by (simp add: exampleOps_simps r3)
  have u3: "protojsonUnmarshal exampleOps ''xxx'' (Config (parserPlugin ?cp)) = Inr 3"
    by (simp add: exampleOps_simps c0)
  have v3: "Validate exampleOps 3 = None" by (simp add: exampleOps_simps)
  have i3: "Init exampleOps None 3 = Inl (External ''init failed'')"
    by (simp add: exampleOps_simps)
  have m2: "jsonMarshal exampleOps 2 = Inr ''xx''" by (simp add: exampleOps_simps r2)
  have u2: "protojsonUnmarshal exampleOps ''xx'' (Config (parserPlugin ?cp)) = Inr 2"
    by (simp add: exampleOps_simps c0)
  have v2: "Validate exampleOps 2 = None" by (simp add: exampleOps_simps)
  have i2: "Init exampleOps None 2 = Inr 102" by (simp add: exampleOps_simps)
  have p99: "Parse exampleOps ?cp (Some 99) None
      = (Inl (External ''unsupported value''), [CallMarshal 99])"
    using Parse_ordered_fail_fast
      [where ops = exampleOps and cp = ?cp and v = 99 and cb = None
         and e = "External ''unsupported value''"] m99
    by blast
  have p11: "Parse exampleOps ?cp (Some 11) None
      = (Inl (External ''bad data''), [CallMarshal 11, CallUnmarshal ''xxxxxxxxxxx'' 0])"
    using Parse_ordered_fail_fast
      [where ops = exampleOps and cp = ?cp and v = 11 and cb = None and d = "''xxxxxxxxxxx''"
         and e = "External ''bad data''"] m11 u11
    unfolding c0 by blast
  have p6: "Parse exampleOps ?cp (Some 6) None
      = (Inl (External ''invalid''), [CallMarshal 6, CallUnmarshal ''xxxxxx'' 0, CallValidate 6])"
    using Parse_ordered_fail_fast
      [where ops = exampleOps and cp = ?cp and v = 6 and cb = None and d = "''xxxxxx''"
         and c = 6 and e = "External ''invalid''"] m6 u6 v6
    unfolding c0 by blast
  have p3: "Parse exampleOps ?cp (Some 3) None
      = (Inl (External ''init failed''),
         [CallMarshal 3, CallUnmarshal ''xxx'' 0, CallValidate 3, CallInit 3])"
    using Parse_ordered_fail_fast
      [where ops = exampleOps and cp = ?cp and v = 3 and cb = None and d = "''xxx''"
         and c = 3 and e = "External ''init failed''"] m3 u3 v3 i3
    unfolding c0 by blast
  have p2: "Parse exampleOps ?cp (Some 2) None
      = (Inr 102, [CallMarshal 2, CallUnmarshal ''xx'' 0, CallValidate 2, CallInit 2])"
    using Parse_ordered_fail_fast
      [where ops = exampleOps and cp = ?cp and v = 2 and cb = None and d = "''xx''"
         and c = 2 and c' = 102] m2 u2 v2 i2
    unfolding c0 by blast
  show ?thesis
    unfolding p99 p11 p6 p3 p2 m99 m11 u11 m6 u6 v6 m3 v3 i3 m2 v2 i2 by simp
qed

text \<open>
  C10. With no configuration value, \<open>Parse\<close> makes no marshalling and no decoding
  call: it calls \<open>Validate\<close> on the factory's fresh object and, when that passes,
  \<open>Init\<close> on the same object. It returns the object as \<open>Init\<close> left it when both
  succeed, and otherwise the error of the first of the two that fails.
\<close>

theorem Parse_nil_validates_and_inits:
  "(Validate ops (Config (parserPlugin cp)) = Some e \<longrightarrow>
      Parse ops cp None cb = (Inl e, [CallValidate (Config (parserPlugin cp))])) \<and>
   (Validate ops (Config (parserPlugin cp)) = None \<and>
    Init ops cb (Config (parserPlugin cp)) = Inl e \<longrightarrow>
      Parse ops cp None cb
        = (Inl e, [CallValidate (Config (parserPlugin cp)),
                   CallInit (Config (parserPlugin cp))])) \<and>
   (Validate ops (Config (parserPlugin cp)) = None \<and>
    Init ops cb (Config (parserPlugin cp)) = Inr c' \<longrightarrow>
      Parse ops cp None cb
        = (Inr c', [CallValidate (Config (parserPlugin cp)),
                    CallInit (Config (parserPlugin cp))]))"
  by (simp add: Parse_None)

theorem Parse_nil_validates_and_inits_witness:
  "Validate exampleOps
     (Config (parserPlugin (NewPluginConfigParser ((examplePlugin 10 0)\<lparr>Config := 6\<rparr>))))
     = Some (External ''invalid'') \<and>
   Parse exampleOps (NewPluginConfigParser ((examplePlugin 10 0)\<lparr>Config := 6\<rparr>)) None None
     = (Inl (External ''invalid''), [CallValidate 6]) \<and>
   Validate exampleOps
     (Config (parserPlugin (NewPluginConfigParser ((examplePlugin 10 0)\<lparr>Config := 3\<rparr>)))) = None \<and>
   Init exampleOps None
     (Config (parserPlugin (NewPluginConfigParser ((examplePlugin 10 0)\<lparr>Config := 3\<rparr>))))
     = Inl (External ''init failed'') \<and>
   Parse exampleOps (NewPluginConfigParser ((examplePlugin 10 0)\<lparr>Config := 3\<rparr>)) None None
     = (Inl (External ''init failed''), [CallValidate 3, CallInit 3]) \<and>
   Validate exampleOps
     (Config (parserPlugin (NewPluginConfigParser (examplePlugin 10 0)))) = None \<and>
   Init exampleOps None
     (Config (parserPlugin (NewPluginConfigParser (examplePlugin 10 0)))) = Inr 100 \<and>
   Parse exampleOps (NewPluginConfigParser (examplePlugin 10 0)) None None
     = (Inr 100, [CallValidate 0, CallInit 0])"
proof -
  let ?p6 = "NewPluginConfigParser ((examplePlugin 10 0)\<lparr>Config := 6\<rparr>)"
  let ?p3 = "NewPluginConfigParser ((examplePlugin 10 0)\<lparr>Config := 3\<rparr>)"
  let ?p0 = "NewPluginConfigParser (examplePlugin 10 0)"
  have c: "Config (parserPlugin ?p6) = 6" "Config (parserPlugin ?p3) = 3"
      "Config (parserPlugin ?p0) = 0"
    by (simp_all add: NewPluginConfigParser_def examplePlugin_def)
  have a: "Parse exampleOps ?p6 None None = (Inl (External ''invalid''), [CallValidate 6])"
    using Parse_nil_validates_and_inits
      [where ops = exampleOps and cp = ?p6 and cb = None and e = "External ''invalid''"]
    by (simp add: c exampleOps_simps)
  have b: "Parse exampleOps ?p3 None None
      = (Inl (External ''init failed''), [CallValidate 3, CallInit 3])"
    using Parse_nil_validates_and_inits
      [where ops = exampleOps and cp = ?p3 and cb = None and e = "External ''init failed''"]
    by (simp add: c exampleOps_simps)
  have d: "Parse exampleOps ?p0 None None = (Inr 100, [CallValidate 0, CallInit 0])"
    using Parse_nil_validates_and_inits
      [where ops = exampleOps and cp = ?p0 and cb = None and c' = 100]
    by (simp add: c exampleOps_simps)
  show ?thesis using a b d by (simp add: c exampleOps_simps)
qed

section \<open>The transport form\<close>

lemma memberNames_Marshal:
  "memberNames (Marshal mo c) =
     [''auth''] @ (if emptyMap (Filters c) then [] else [''filters''])
       @ [''CanSkipMethod'', ''FilterNames'', ''FilterWrappers'']"
  by (simp add: memberNames_def Marshal_def)

lemma findField_tags:
  "findField ''auth'' = Some FAuth"
  "findField ''filters'' = Some FFilters"
  "findField ''CanSkipMethod'' = Some FCanSkipMethod"
  "findField ''FilterNames'' = Some FFilterNames"
  "findField ''FilterWrappers'' = Some FFilterWrappers"
  by (simp_all add: findField_def fields_def)

lemma foldl_fmupd_lookup:
  "distinct (map fst kvs) \<Longrightarrow>
     fmlookup (foldl (\<lambda>f kv. fmupd (fst kv) (snd kv) f) f0 kvs) k =
       (case map_of kvs k of Some v \<Rightarrow> Some v | None \<Rightarrow> fmlookup f0 k)"
proof (induction kvs arbitrary: f0)
  case Nil
  then show ?case by simp
next
  case (Cons kv kvs)
  obtain k1 v1 where kv: "kv = (k1, v1)" by (cases kv)
  have d: "distinct (map fst kvs)" and nin: "k1 \<notin> fst ` set kvs"
    using Cons.prems by (simp_all add: kv)
  have none: "map_of kvs k1 = None" using nin by (simp add: map_of_eq_None_iff)
  show ?case
    using Cons.IH [OF d, of "fmupd k1 v1 f0"] none
    by (auto simp: kv split: option.splits)
qed

lemma distinct_keys_sorted_list_of_fmap: "distinct (map fst (sorted_list_of_fmap m))"
  by (simp add: sorted_list_of_fmap_def comp_def sorted_list_of_fset.rep_eq)

lemma foldl_fmupd_sorted_list:
  "foldl (\<lambda>f kv. fmupd (fst kv) (snd kv) f) fmempty (sorted_list_of_fmap m) = m"
proof (rule fmap_ext)
  fix k
  have d: "distinct (map fst (sorted_list_of_fmap m))"
    by (rule distinct_keys_sorted_list_of_fmap)
  show "fmlookup (foldl (\<lambda>f kv. fmupd (fst kv) (snd kv) f) fmempty (sorted_list_of_fmap m)) k
      = fmlookup m k"
    unfolding foldl_fmupd_lookup [OF d] by (simp split: option.splits)
qed

lemma foldl_decMember:
  "\<forall>kv \<in> set kvs. coerceUTF8 (fst kv) = fst kv \<and> dec (enc (snd kv)) = (None, snd kv) \<Longrightarrow>
     foldl (decMember dec) (e0, f0) (map (\<lambda>(k, v). (coerceUTF8 k, enc v)) kvs)
       = (e0, foldl (\<lambda>f kv. fmupd (fst kv) (snd kv) f) f0 kvs)"
proof (induction kvs arbitrary: e0 f0)
  case Nil
  then show ?case by simp
next
  case (Cons kv kvs)
  obtain k1 v1 where kv: "kv = (k1, v1)" by (cases kv)
  have h: "coerceUTF8 k1 = k1" "dec (enc v1) = (None, v1)"
    using Cons.prems by (simp_all add: kv)
  have step: "decMember dec (e0, f0) (coerceUTF8 k1, enc v1) = (e0, fmupd k1 v1 f0)"
    by (simp add: decMember_def h firstError_def split: option.splits)
  have rest: "\<forall>kv \<in> set kvs. coerceUTF8 (fst kv) = fst kv \<and> dec (enc (snd kv)) = (None, snd kv)"
    using Cons.prems by simp
  show ?case
    using Cons.IH [OF rest, of e0 "fmupd k1 v1 f0"] by (simp add: kv step)
qed

lemma set_sorted_list_of_fmap:
  "(k, v) \<in> set (sorted_list_of_fmap m) \<longleftrightarrow> fmlookup m k = Some v"
  using map_of_eq_Some_iff [OF distinct_keys_sorted_list_of_fmap, of m k v]
  by (simp only: map_of_sorted_list)

lemma decMap_encMap:
  assumes "\<And>f k v. m = Some f \<Longrightarrow> fmlookup f k = Some v \<Longrightarrow>
             coerceUTF8 k = k \<and> dec (enc v) = (None, v)"
  shows "decMap dec (encMap enc m) None = (None, m)"
proof (cases m)
  case None
  then show ?thesis by (simp add: decMap_def encMap_def)
next
  case (Some f)
  have "\<forall>kv \<in> set (sorted_list_of_fmap f).
          coerceUTF8 (fst kv) = fst kv \<and> dec (enc (snd kv)) = (None, snd kv)"
    using assms [OF Some] by (auto simp: set_sorted_list_of_fmap)
  from foldl_decMember [OF this, of None fmempty]
  show ?thesis
    by (simp add: Some decMap_def encMap_def foldl_fmupd_sorted_list)
qed

lemma decString_encString: "validUTF8 v \<Longrightarrow> decString (encString v) = (None, v)"
  by (simp add: decString_def encString_def validUTF8_def)

lemma decPtr_encPtr:
  assumes "\<And>v. p = Some v \<Longrightarrow> enc v \<noteq> JNull \<and> dec (enc v) = (None, v)"
  shows "decPtr dec (encPtr enc p) = (None, p)"
proof (cases p)
  case None
  then show ?thesis by (simp add: decPtr_def encPtr_def)
next
  case (Some v)
  have "enc v \<noteq> JNull" and "dec (enc v) = (None, v)" using assms [OF Some] by simp_all
  then show ?thesis
    by (cases "enc v") (simp_all add: Some decPtr_def encPtr_def)
qed

lemma unmarshalMember_derived:
  assumes "findField k = Some fd" and "fd \<noteq> FAuth" and "fd \<noteq> FFilters"
  shows "Auth (snd (unmarshalMember mo acc (k, j))) = Auth (snd acc)"
    and "Filters (snd (unmarshalMember mo acc (k, j))) = Filters (snd acc)"
  using assms by (cases fd; simp add: unmarshalMember_def split: prod.splits)+

lemmas unmarshalMember_tail =
  unmarshalMember_derived [OF findField_tags(3), simplified]
  unmarshalMember_derived [OF findField_tags(4), simplified]
  unmarshalMember_derived [OF findField_tags(5), simplified]

lemma unmarshalMember_auth:
  assumes "Auth (snd acc) = None"
    and "\<And>a k v. m = Some a \<Longrightarrow> fmlookup a k = Some v \<Longrightarrow> validUTF8 k \<and> validUTF8 v"
  shows "snd (unmarshalMember mo acc (''auth'', encMap encString m)) = (snd acc)\<lparr>Auth := m\<rparr>"
proof -
  have "decMap decString (encMap encString m) None = (None, m)"
    using assms(2) by (intro decMap_encMap) (auto simp: decString_encString validUTF8_def)
  then show ?thesis
    by (simp add: unmarshalMember_def findField_tags assms(1))
qed

lemma unmarshalMember_filters:
  assumes "Filters (snd acc) = None"
    and "\<And>f k p. m = Some f \<Longrightarrow> fmlookup f k = Some p \<Longrightarrow> validUTF8 k"
    and "\<And>f k v. m = Some f \<Longrightarrow> fmlookup f k = Some (Some v) \<Longrightarrow>
           fcMarshal mo v \<noteq> JNull \<and> fcUnmarshal mo (fcMarshal mo v) = (None, v)"
  shows "snd (unmarshalMember mo acc (''filters'', encMap (encPtr (fcMarshal mo)) m))
           = (snd acc)\<lparr>Filters := m\<rparr>"
proof -
  have "decMap (decPtr (fcUnmarshal mo)) (encMap (encPtr (fcMarshal mo)) m) None = (None, m)"
  proof (rule decMap_encMap)
    fix f k p
    assume m: "m = Some f" and l: "fmlookup f k = Some p"
    have "decPtr (fcUnmarshal mo) (encPtr (fcMarshal mo) p) = (None, p)"
      using assms(3) [OF m] l by (intro decPtr_encPtr) simp
    then show "coerceUTF8 k = k \<and> decPtr (fcUnmarshal mo) (encPtr (fcMarshal mo) p) = (None, p)"
      using assms(2) [OF m l] by (simp add: validUTF8_def)
  qed
  then show ?thesis
    by (simp add: unmarshalMember_def findField_tags assms(1))
qed

lemma mapKeys_Some: "k \<in> mapKeys (Some f) \<longleftrightarrow> fmlookup f k \<noteq> None"
  by (auto simp: mapKeys_def fmlookup_dom'_iff [symmetric])

text \<open>
  C6, as amended. Take a consumer whose \<open>Filters\<close> is nil or has an entry, whose
  plugin names and \<open>Auth\<close> blobs are well-formed UTF-8 and whose filter entries are read
  back from their own encoding as they were. Decoding its transport form into a
  consumer with nil \<open>Auth\<close> and nil \<open>Filters\<close> gives exactly its \<open>Auth\<close> and its
  \<open>Filters\<close>. (An empty \<open>Filters\<close> that is not nil is left out of the transport form
  and comes back nil.)
\<close>

theorem Unmarshal_Marshal_roundtrip:
  assumes ne: "Filters c \<noteq> Some fmempty"
    and vn: "validNames c"
    and fs: "filtersSurvive mo c"
    and r: "Auth r = None" "Filters r = None"
  shows "Auth (snd (Unmarshal mo r (Marshal mo c))) = Auth c \<and>
         Filters (snd (Unmarshal mo r (Marshal mo c))) = Filters c"
proof -
  let ?tail = "[(''CanSkipMethod'', encMap JBool (CanSkipMethod c)),
           (''FilterNames'', encSlice encString (FilterNames c)),
           (''FilterWrappers'', encSlice (encPtr (fwMarshal mo)) (FilterWrappers c))]"
  have tail: "Auth (snd (foldl (unmarshalMember mo) acc ?tail)) = Auth (snd acc) \<and>
      Filters (snd (foldl (unmarshalMember mo) acc ?tail)) = Filters (snd acc)" for acc
    by (simp add: unmarshalMember_tail)
  have av: "\<And>a k v. Auth c = Some a \<Longrightarrow> fmlookup a k = Some v \<Longrightarrow> validUTF8 k \<and> validUTF8 v"
    using vn by (auto simp: validNames_def mapKeys_Some)
  have fv: "\<And>f k p. Filters c = Some f \<Longrightarrow> fmlookup f k = Some p \<Longrightarrow> validUTF8 k"
    using vn by (auto simp: validNames_def mapKeys_Some)
  have fc: "\<And>f k v. Filters c = Some f \<Longrightarrow> fmlookup f k = Some (Some v) \<Longrightarrow>
           fcMarshal mo v \<noteq> JNull \<and> fcUnmarshal mo (fcMarshal mo v) = (None, v)"
    using fs by (auto simp: filtersSurvive_def)
  let ?a1 = "unmarshalMember mo (None, r) (''auth'', encMap encString (Auth c))"
  have a1: "snd ?a1 = r\<lparr>Auth := Auth c\<rparr>"
    using unmarshalMember_auth [of "(None, r)" "Auth c" mo] r(1) av by simp
  show ?thesis
  proof (cases "emptyMap (Filters c)")
    case True
    then have none: "Filters c = None" using ne by (simp add: emptyMap_def split: option.splits)
    have "Unmarshal mo r (Marshal mo c) = foldl (unmarshalMember mo) ?a1 ?tail"
      using True by (simp add: Unmarshal_def Marshal_def)
    then show ?thesis using tail [of ?a1] a1 r(2) none by simp
  next
    case False
    let ?a2 = "unmarshalMember mo ?a1 (''filters'', encMap (encPtr (fcMarshal mo)) (Filters c))"
    have "Filters (snd ?a1) = None" using a1 r(2) by simp
    from unmarshalMember_filters [OF this fv fc, of "Filters c"]
    have a2: "snd ?a2 = r\<lparr>Auth := Auth c, Filters := Filters c\<rparr>" using a1 by simp
    have "Unmarshal mo r (Marshal mo c) = foldl (unmarshalMember mo) ?a2 ?tail"
      using False by (simp add: Unmarshal_def Marshal_def)
    then show ?thesis using tail [of ?a2] a2 by simp
  qed
qed

lemma scenarioConsumer_fields:
  "Auth scenarioConsumer = Some fmempty"
  "Filters scenarioConsumer
     = Some (fmap_of_list [(''rate-limit'', Some None), (''basic-auth'', Some (Some 2))])"
  by (simp_all add: scenarioConsumer_def zeroConsumer_def)

lemma scenario_names_valid: "validUTF8 ''rate-limit''" "validUTF8 ''basic-auth''"
  by code_simp+

lemma scenarioConsumer_validNames: "validNames scenarioConsumer"
  by (auto simp: validNames_def scenarioConsumer_fields mapKeys_def scenario_names_valid)

lemma exampleModel_survives: "filtersSurvive exampleModel c"
  by (auto simp: filtersSurvive_def exampleModel_def split: option.splits)

lemma freshConsumer_fields:
  "Auth freshConsumer = None" "Filters freshConsumer = None" "FilterNames freshConsumer = None"
  "FilterConfigs freshConsumer = Map.empty"
  by (simp_all add: freshConsumer_def zeroConsumer_def)

theorem Unmarshal_Marshal_roundtrip_witness:
  "Filters scenarioConsumer \<noteq> Some fmempty \<and> validNames scenarioConsumer \<and>
   filtersSurvive exampleModel scenarioConsumer \<and>
   Auth freshConsumer = None \<and>
   Filters freshConsumer = None \<and>
   Auth (snd (Unmarshal exampleModel freshConsumer (Marshal exampleModel scenarioConsumer)))
     = Some fmempty \<and>
   Filters (snd (Unmarshal exampleModel freshConsumer (Marshal exampleModel scenarioConsumer)))
     = Some (fmap_of_list [(''rate-limit'', Some None), (''basic-auth'', Some (Some 2))])"
proof -
  have ne: "Filters scenarioConsumer \<noteq> Some fmempty"
  proof
    assume "Filters scenarioConsumer = Some fmempty"
    then have "fmlookup (fmap_of_list [(''rate-limit'', Some None),
        (''basic-auth'', Some (Some (2::nat)))]) ''rate-limit'' = fmlookup fmempty ''rate-limit''"
      by (simp only: scenarioConsumer_fields option.inject)
    then show False by simp
  qed
  show ?thesis
    using Unmarshal_Marshal_roundtrip
        [OF ne scenarioConsumer_validNames exampleModel_survives
            freshConsumer_fields(1) freshConsumer_fields(2)]
      ne scenarioConsumer_validNames exampleModel_survives [of scenarioConsumer]
    by (simp add: scenarioConsumer_fields freshConsumer_fields)
qed

lemma emptyFiltersConsumer_fields:
  "Auth emptyFiltersConsumer = Some fmempty" "Filters emptyFiltersConsumer = Some fmempty"
  by (simp_all add: emptyFiltersConsumer_def zeroConsumer_def)

text \<open>
  C6 as stated fails: a consumer whose \<open>Auth\<close> and \<open>Filters\<close> are empty maps, not nil,
  loses \<open>filters\<close> in the transport form (\<open>omitempty\<close>) and comes back with nil
  \<open>Filters\<close>.
\<close>

theorem Unmarshal_Marshal_empty_Filters_counterexample:
  "Auth emptyFiltersConsumer \<noteq> None \<and> Filters emptyFiltersConsumer \<noteq> None \<and>
   Filters (snd (Unmarshal exampleModel freshConsumer (Marshal exampleModel emptyFiltersConsumer)))
     \<noteq> Filters emptyFiltersConsumer"
proof -
  have m: "Marshal exampleModel emptyFiltersConsumer =
      Document (JObject [(''auth'', JObject []), (''CanSkipMethod'', JNull),
        (''FilterNames'', JNull), (''FilterWrappers'', JNull)])"
    by code_simp
  have "Filters (snd (Unmarshal exampleModel freshConsumer
      (Marshal exampleModel emptyFiltersConsumer))) = None"
    unfolding m
    by (simp add: Unmarshal_def unmarshalMember_def findField_tags decMap_def zeroConsumer_def
        freshConsumer_def exampleModel_def split: prod.splits)
  then show ?thesis by (simp add: emptyFiltersConsumer_fields)
qed

text \<open>
  C1. What the code does where the claim fails: the transport form of a new consumer
  has, after \<open>auth\<close>, the members \<open>CanSkipMethod\<close>, \<open>FilterNames\<close> and
  \<open>FilterWrappers\<close>, and a consumer that holds filter names and wrappers writes them
  out. Of the derived fields only \<open>ConsumerConfigs\<close> and \<open>FilterConfigs\<close>, which carry
  the tag \<open>json:"-"\<close>, stay out of the transport form.
\<close>

theorem Marshal_writes_untagged_derived_fields:
  "Marshal exampleModel freshConsumer
     = Document (JObject [(''auth'', JNull), (''CanSkipMethod'', JNull),
         (''FilterNames'', JNull), (''FilterWrappers'', JNull)]) \<and>
   memberNames (Marshal exampleModel freshConsumer)
     = [''auth'', ''CanSkipMethod'', ''FilterNames'', ''FilterWrappers''] \<and>
   Marshal exampleModel
       (freshConsumer
          \<lparr>FilterNames := Some [''basic-auth''], FilterWrappers := Some [Some 3]\<rparr>)
     = Document (JObject [(''auth'', JNull), (''CanSkipMethod'', JNull),
         (''FilterNames'', JArray [JString ''basic-auth'']),
         (''FilterWrappers'', JArray [JString ''www''])])"
  by code_simp

section \<open>Resolution of a consumer\<close>

lemma rangeMap_simps:
  "rangeMap keys None = []"
  "rangeMap [] (Some f) = []"
  "rangeMap (k # ks) (Some f) =
     (case fmlookup f k of None \<Rightarrow> rangeMap ks (Some f) | Some v \<Rightarrow> (k, v) # rangeMap ks (Some f))"
  by (simp_all add: rangeMap_def List.map_filter_def split: option.splits)

lemma set_rangeMap:
  "(k, v) \<in> set (rangeMap keys (Some f)) \<longleftrightarrow> k \<in> set keys \<and> fmlookup f k = Some v"
  by (induction keys) (auto simp: rangeMap_simps split: option.splits)

lemma rangeMap_keys:
  "rangeOrder keys m \<Longrightarrow> fst ` set (rangeMap keys m) = mapKeys m"
proof (cases m)
  case None
  then show ?thesis by (simp add: rangeMap_simps mapKeys_def)
next
  case (Some f)
  assume "rangeOrder keys m"
  then have k: "set keys = fmdom' f" by (simp add: rangeOrder_def mapKeys_def Some)
  have "x \<in> fst ` set (rangeMap keys (Some f)) \<longleftrightarrow> x \<in> fmdom' f" for x
  proof
    assume "x \<in> fst ` set (rangeMap keys (Some f))"
    then obtain v where "(x, v) \<in> set (rangeMap keys (Some f))" by auto
    then show "x \<in> fmdom' f" by (simp add: set_rangeMap fmdom'I)
  next
    assume "x \<in> fmdom' f"
    then obtain v where v: "fmlookup f x = Some v" by (auto simp: fmlookup_dom'_iff)
    moreover have "x \<in> set keys" using k \<open>x \<in> fmdom' f\<close> by simp
    ultimately have "(x, v) \<in> set (rangeMap keys (Some f))" by (simp add: set_rangeMap)
    then show "x \<in> fst ` set (rangeMap keys (Some f))" by force
  qed
  then show ?thesis by (auto simp: Some mapKeys_def)
qed

lemma distinct_rangeMap:
  "distinct keys \<Longrightarrow> distinct (map fst (rangeMap keys m))"
proof (cases m)
  case None
  then show ?thesis by (simp add: rangeMap_simps)
next
  case (Some f)
  assume d: "distinct keys"
  have "map fst (rangeMap keys m) = filter (\<lambda>k. fmlookup f k \<noteq> None) keys"
    unfolding Some
    by (induction keys) (auto simp: rangeMap_simps split: option.splits)
  then show ?thesis using d by simp
qed

lemma mapKeys_rangeMap:
  "rangeOrder keys m \<Longrightarrow> n \<in> mapKeys m \<Longrightarrow> \<exists>d. (n, d) \<in> set (rangeMap keys m)"
  using rangeMap_keys [of keys m] by force

lemma Auth_entry_names:
  "InitConfigs_Auth_entry ops st nm data = Inl e \<Longrightarrow> errorPlugin e = Some nm"
  by (auto simp: InitConfigs_Auth_entry_def split: option.splits sum.splits)

lemma Auth_entry_unregistered:
  "LoadHttpPlugin st n = None \<Longrightarrow> InitConfigs_Auth_entry ops st n d = Inl (NotForConsumer n)"
  by (simp add: InitConfigs_Auth_entry_def)

lemma Filters_entry_error:
  "InitConfigs_Filters_entry ops mo st nm data = Inl e \<Longrightarrow>
     (if data = None \<and> LoadHttpFilterFactoryAndParser st nm \<noteq> None
        then e = Panic ''nil pointer dereference'' else errorPlugin e = Some nm)"
  by (auto simp: InitConfigs_Filters_entry_def split: option.splits sum.splits)

lemma Filters_entry_unregistered:
  "LoadHttpFilterFactoryAndParser st n = None \<Longrightarrow>
     InitConfigs_Filters_entry ops mo st n d = Inl (PluginNotFound n)"
  by (simp add: InitConfigs_Filters_entry_def)

lemma Filters_entry_name:
  "InitConfigs_Filters_entry ops mo st nm data = Inr pfc \<Longrightarrow> pfcName pfc = nm"
  by (auto simp: InitConfigs_Filters_entry_def split: option.splits sum.splits)

lemma InitConfigs_Auth_fails:
  "fst (InitConfigs_Auth ops st kvs ccs) = Some e \<Longrightarrow>
     \<exists>pre k d post. kvs = pre @ (k, d) # post \<and>
       (\<forall>(k', d') \<in> set pre. \<exists>conf. InitConfigs_Auth_entry ops st k' d' = Inr conf) \<and>
       InitConfigs_Auth_entry ops st k d = Inl e"
proof (induction kvs arbitrary: ccs)
  case Nil
  then show ?case by simp
next
  case (Cons kv kvs)
  obtain nm data where kv: "kv = (nm, data)" by (cases kv)
  show ?case
  proof (cases "InitConfigs_Auth_entry ops st nm data")
    case (Inl err)
    then have "err = e" using Cons.prems by (simp add: kv)
    then have "kv # kvs = [] @ (nm, data) # kvs \<and>
        (\<forall>(k', d') \<in> set []. \<exists>conf. InitConfigs_Auth_entry ops st k' d' = Inr conf) \<and>
        InitConfigs_Auth_entry ops st nm data = Inl e"
      using Inl by (simp add: kv)
    then show ?thesis by blast
  next
    case (Inr conf)
    then have "fst (InitConfigs_Auth ops st kvs (ccs(nm \<mapsto> conf))) = Some e"
      using Cons.prems by (simp add: kv)
    from Cons.IH [OF this]
    obtain pre k d post where p: "kvs = pre @ (k, d) # post"
      "\<forall>(k', d') \<in> set pre. \<exists>conf. InitConfigs_Auth_entry ops st k' d' = Inr conf"
      "InitConfigs_Auth_entry ops st k d = Inl e"
      by blast
    have "kv # kvs = ((nm, data) # pre) @ (k, d) # post \<and>
        (\<forall>(k', d') \<in> set ((nm, data) # pre). \<exists>conf. InitConfigs_Auth_entry ops st k' d' = Inr conf) \<and>
        InitConfigs_Auth_entry ops st k d = Inl e"
      using p Inr by (simp add: kv)
    then show ?thesis by blast
  qed
qed

lemma InitConfigs_Auth_succeeds:
  "fst (InitConfigs_Auth ops st kvs ccs) = None \<Longrightarrow>
     \<forall>(k, d) \<in> set kvs. \<exists>conf. InitConfigs_Auth_entry ops st k d = Inr conf"
  by (induction ops st kvs ccs rule: InitConfigs_Auth.induct) (auto split: sum.splits)

lemma InitConfigs_Filters_fails:
  "fst (InitConfigs_Filters ops mo st kvs fcs) = Some e \<Longrightarrow>
     \<exists>pre k d post. kvs = pre @ (k, d) # post \<and>
       (\<forall>(k', d') \<in> set pre. \<exists>pfc. InitConfigs_Filters_entry ops mo st k' d' = Inr pfc) \<and>
       InitConfigs_Filters_entry ops mo st k d = Inl e \<and>
       dom (snd (InitConfigs_Filters ops mo st kvs fcs)) = dom fcs \<union> fst ` set pre"
proof (induction kvs arbitrary: fcs)
  case Nil
  then show ?case by simp
next
  case (Cons kv kvs)
  obtain nm data where kv: "kv = (nm, data)" by (cases kv)
  show ?case
  proof (cases "InitConfigs_Filters_entry ops mo st nm data")
    case (Inl err)
    then have "err = e" using Cons.prems by (simp add: kv)
    then have "kv # kvs = [] @ (nm, data) # kvs \<and>
        (\<forall>(k', d') \<in> set []. \<exists>pfc. InitConfigs_Filters_entry ops mo st k' d' = Inr pfc) \<and>
        InitConfigs_Filters_entry ops mo st nm data = Inl e \<and>
        dom (snd (InitConfigs_Filters ops mo st (kv # kvs) fcs)) = dom fcs \<union> fst ` set []"
      using Inl by (simp add: kv)
    then show ?thesis by blast
  next
    case (Inr pfc)
    then have step: "InitConfigs_Filters ops mo st (kv # kvs) fcs
        = InitConfigs_Filters ops mo st kvs (fcs(nm \<mapsto> pfc))"
      by (simp add: kv)
    then have "fst (InitConfigs_Filters ops mo st kvs (fcs(nm \<mapsto> pfc))) = Some e"
      using Cons.prems by simp
    from Cons.IH [OF this]
    obtain pre k d post where p: "kvs = pre @ (k, d) # post"
      "\<forall>(k', d') \<in> set pre. \<exists>pfc. InitConfigs_Filters_entry ops mo st k' d' = Inr pfc"
      "InitConfigs_Filters_entry ops mo st k d = Inl e"
      "dom (snd (InitConfigs_Filters ops mo st kvs (fcs(nm \<mapsto> pfc))))
         = dom (fcs(nm \<mapsto> pfc)) \<union> fst ` set pre"
      by blast
    have "kv # kvs = ((nm, data) # pre) @ (k, d) # post \<and>
        (\<forall>(k', d') \<in> set ((nm, data) # pre).
            \<exists>pfc. InitConfigs_Filters_entry ops mo st k' d' = Inr pfc) \<and>
        InitConfigs_Filters_entry ops mo st k d = Inl e \<and>
        dom (snd (InitConfigs_Filters ops mo st (kv # kvs) fcs))
          = dom fcs \<union> fst ` set ((nm, data) # pre)"
      using p Inr unfolding step by (auto simp: kv)
    then show ?thesis by blast
  qed
qed

lemma InitConfigs_Filters_succeeds:
  "fst (InitConfigs_Filters ops mo st kvs fcs) = None \<Longrightarrow>
     (\<forall>(k, d) \<in> set kvs. \<exists>pfc. InitConfigs_Filters_entry ops mo st k d = Inr pfc) \<and>
     dom (snd (InitConfigs_Filters ops mo st kvs fcs)) = dom fcs \<union> fst ` set kvs"
  by (induction ops mo st kvs fcs rule: InitConfigs_Filters.induct) (auto split: sum.splits)

lemma InitConfigs_Filters_names:
  "(\<forall>n p. fcs n = Some p \<longrightarrow> pfcName p = n) \<Longrightarrow>
     snd (InitConfigs_Filters ops mo st kvs fcs) n = Some p \<Longrightarrow> pfcName p = n"
proof (induction ops mo st kvs fcs rule: InitConfigs_Filters.induct)
  case (1 ops mo st fcs)
  then show ?case by simp
next
  case (2 ops mo st nm data rest fcs)
  show ?case
  proof (cases "InitConfigs_Filters_entry ops mo st nm data")
    case (Inl err)
    then show ?thesis using "2.prems" by simp
  next
    case (Inr pfc)
    have "\<forall>n p. (fcs(nm \<mapsto> pfc)) n = Some p \<longrightarrow> pfcName p = n"
      using "2.prems"(1) Filters_entry_name [OF Inr] by auto
    moreover have "snd (InitConfigs_Filters ops mo st rest (fcs(nm \<mapsto> pfc))) n = Some p"
      using "2.prems"(2) Inr by simp
    ultimately show ?thesis by (rule "2.IH" [OF Inr])
  qed
qed

text \<open>
  C3, as amended. If a plugin name of \<open>Auth\<close> has no registered plugin, or a plugin
  name of \<open>Filters\<close> has no registered factory and parser, then \<open>InitConfigs\<close> does not
  succeed. It visits \<open>Auth\<close> and then \<open>Filters\<close> and stops at the first entry whose
  resolution fails: the error it returns is the error of that entry and identifies the
  plugin name of that entry, except that a nil filter entry under a registered name
  makes it panic. That entry is the unresolved name itself when no entry under another
  name fails. No entry is stored under the unresolved name: when the \<open>Auth\<close> loop
  fails \<open>FilterConfigs\<close> is not touched, and otherwise \<open>FilterConfigs\<close> holds exactly
  the names of the filter entries visited before the failure, and none for that name.
\<close>

theorem InitConfigs_unregistered_fails:
  assumes "rangeOrder authKeys (Auth c)" and "rangeOrder filterKeys (Filters c)"
    and "(n \<in> mapKeys (Auth c) \<and> LoadHttpPlugin st n = None) \<or>
         (n \<in> mapKeys (Filters c) \<and> LoadHttpFilterFactoryAndParser st n = None)"
  shows
    "((\<exists>pre k d post e.
         rangeMap authKeys (Auth c) = pre @ (k, d) # post \<and>
         (\<forall>(k', d') \<in> set pre. \<exists>conf. InitConfigs_Auth_entry ops st k' d' = Inr conf) \<and>
         InitConfigs_Auth_entry ops st k d = Inl e \<and>
         fst (InitConfigs ops mo st authKeys filterKeys c) = Some e \<and>
         errorPlugin e = Some k \<and>
         FilterConfigs (snd (InitConfigs ops mo st authKeys filterKeys c)) = FilterConfigs c)
      \<or>
      ((\<forall>(k', d') \<in> set (rangeMap authKeys (Auth c)).
           \<exists>conf. InitConfigs_Auth_entry ops st k' d' = Inr conf) \<and>
       (\<exists>pre k d post e.
         rangeMap filterKeys (Filters c) = pre @ (k, d) # post \<and>
         (\<forall>(k', d') \<in> set pre. \<exists>pfc. InitConfigs_Filters_entry ops mo st k' d' = Inr pfc) \<and>
         InitConfigs_Filters_entry ops mo st k d = Inl e \<and>
         fst (InitConfigs ops mo st authKeys filterKeys c) = Some e \<and>
         (if d = None \<and> LoadHttpFilterFactoryAndParser st k \<noteq> None
            then e = Panic ''nil pointer dereference'' else errorPlugin e = Some k) \<and>
         dom (FilterConfigs (snd (InitConfigs ops mo st authKeys filterKeys c)))
           = fst ` set pre \<and>
         FilterConfigs (snd (InitConfigs ops mo st authKeys filterKeys c)) n = None)))
     \<and>
     ((\<forall>(k', d') \<in> set (rangeMap authKeys (Auth c)).
          k' \<noteq> n \<longrightarrow> (\<exists>conf. InitConfigs_Auth_entry ops st k' d' = Inr conf)) \<and>
      (\<forall>(k', d') \<in> set (rangeMap filterKeys (Filters c)).
          k' \<noteq> n \<longrightarrow> (\<exists>pfc. InitConfigs_Filters_entry ops mo st k' d' = Inr pfc))
      \<longrightarrow> (\<exists>e. fst (InitConfigs ops mo st authKeys filterKeys c) = Some e \<and>
                errorPlugin e = Some n))"
proof -
  let ?A = "InitConfigs_Auth ops st (rangeMap authKeys (Auth c)) Map.empty"
  let ?F = "InitConfigs_Filters ops mo st (rangeMap filterKeys (Filters c)) Map.empty"
  let ?res = "InitConfigs ops mo st authKeys filterKeys c"
  let ?caseA = "\<exists>pre k d post e.
         rangeMap authKeys (Auth c) = pre @ (k, d) # post \<and>
         (\<forall>(k', d') \<in> set pre. \<exists>conf. InitConfigs_Auth_entry ops st k' d' = Inr conf) \<and>
         InitConfigs_Auth_entry ops st k d = Inl e \<and>
         fst ?res = Some e \<and> errorPlugin e = Some k \<and>
         FilterConfigs (snd ?res) = FilterConfigs c"
  let ?caseB = "(\<forall>(k', d') \<in> set (rangeMap authKeys (Auth c)).
           \<exists>conf. InitConfigs_Auth_entry ops st k' d' = Inr conf) \<and>
       (\<exists>pre k d post e.
         rangeMap filterKeys (Filters c) = pre @ (k, d) # post \<and>
         (\<forall>(k', d') \<in> set pre. \<exists>pfc. InitConfigs_Filters_entry ops mo st k' d' = Inr pfc) \<and>
         InitConfigs_Filters_entry ops mo st k d = Inl e \<and>
         fst ?res = Some e \<and>
         (if d = None \<and> LoadHttpFilterFactoryAndParser st k \<noteq> None
            then e = Panic ''nil pointer dereference'' else errorPlugin e = Some k) \<and>
         dom (FilterConfigs (snd ?res)) = fst ` set pre \<and>
         FilterConfigs (snd ?res) n = None)"
  have core: "?caseA \<or> ?caseB"
  proof (cases "fst ?A")
    case (Some e)
    then have r: "?res = (Some e, c\<lparr>ConsumerConfigs := snd ?A\<rparr>)"
      by (cases ?A) (simp add: InitConfigs_def)
    from InitConfigs_Auth_fails [OF Some]
    obtain pre k d post where p: "rangeMap authKeys (Auth c) = pre @ (k, d) # post"
      "\<forall>(k', d') \<in> set pre. \<exists>conf. InitConfigs_Auth_entry ops st k' d' = Inr conf"
      "InitConfigs_Auth_entry ops st k d = Inl e"
      by blast
    have "errorPlugin e = Some k" using p(3) by (rule Auth_entry_names)
    then have ?caseA using p unfolding r by auto
    then show ?thesis ..
  next
    case None
    then have r: "?res = (fst ?F, c\<lparr>ConsumerConfigs := snd ?A, FilterConfigs := snd ?F\<rparr>)"
      by (cases ?A; cases ?F) (simp add: InitConfigs_def)
    have aok: "\<forall>(k', d') \<in> set (rangeMap authKeys (Auth c)).
           \<exists>conf. InitConfigs_Auth_entry ops st k' d' = Inr conf"
      using None by (rule InitConfigs_Auth_succeeds)
    have nf: "n \<in> mapKeys (Filters c)" and un: "LoadHttpFilterFactoryAndParser st n = None"
    proof -
      have "\<not> (n \<in> mapKeys (Auth c) \<and> LoadHttpPlugin st n = None)"
      proof
        assume a: "n \<in> mapKeys (Auth c) \<and> LoadHttpPlugin st n = None"
        then obtain d where "(n, d) \<in> set (rangeMap authKeys (Auth c))"
          using mapKeys_rangeMap [OF assms(1)] by blast
        then have "\<exists>conf. InitConfigs_Auth_entry ops st n d = Inr conf" using aok by blast
        then show False using Auth_entry_unregistered [of st n ops d] a by simp
      qed
      then show "n \<in> mapKeys (Filters c)" and "LoadHttpFilterFactoryAndParser st n = None"
        using assms(3) by blast+
    qed
    obtain d0 where d0: "(n, d0) \<in> set (rangeMap filterKeys (Filters c))"
      using mapKeys_rangeMap [OF assms(2) nf] by blast
    have "fst ?F \<noteq> None"
    proof
      assume "fst ?F = None"
      from InitConfigs_Filters_succeeds [OF this] d0
      have "\<exists>pfc. InitConfigs_Filters_entry ops mo st n d0 = Inr pfc" by blast
      then show False using Filters_entry_unregistered [OF un, of ops mo d0] by simp
    qed
    then obtain e where e: "fst ?F = Some e" by blast
    from InitConfigs_Filters_fails [OF e]
    obtain pre k d post where p: "rangeMap filterKeys (Filters c) = pre @ (k, d) # post"
      "\<forall>(k', d') \<in> set pre. \<exists>pfc. InitConfigs_Filters_entry ops mo st k' d' = Inr pfc"
      "InitConfigs_Filters_entry ops mo st k d = Inl e"
      "dom (snd ?F) = dom (Map.empty :: string \<rightharpoonup> ('a, 'b) ParsedFilterConfig) \<union> fst ` set pre"
      by blast
    have dm: "dom (snd ?F) = fst ` set pre" using p(4) by simp
    have "n \<notin> fst ` set pre"
    proof
      assume "n \<in> fst ` set pre"
      then obtain d' where "(n, d') \<in> set pre" by auto
      then have "\<exists>pfc. InitConfigs_Filters_entry ops mo st n d' = Inr pfc" using p(2) by blast
      then show False using Filters_entry_unregistered [OF un, of ops mo d'] by simp
    qed
    then have none: "snd ?F n = None" using dm by (auto simp: domIff)
    have er: "if d = None \<and> LoadHttpFilterFactoryAndParser st k \<noteq> None
            then e = Panic ''nil pointer dereference'' else errorPlugin e = Some k"
      using p(3) by (rule Filters_entry_error)
    have fr: "fst ?res = Some e" unfolding r using e by simp
    have dr: "dom (FilterConfigs (snd ?res)) = fst ` set pre" unfolding r using dm by simp
    have nr: "FilterConfigs (snd ?res) n = None" unfolding r using none by simp
    have "\<exists>pre k d post e.
         rangeMap filterKeys (Filters c) = pre @ (k, d) # post \<and>
         (\<forall>(k', d') \<in> set pre. \<exists>pfc. InitConfigs_Filters_entry ops mo st k' d' = Inr pfc) \<and>
         InitConfigs_Filters_entry ops mo st k d = Inl e \<and>
         fst ?res = Some e \<and>
         (if d = None \<and> LoadHttpFilterFactoryAndParser st k \<noteq> None
            then e = Panic ''nil pointer dereference'' else errorPlugin e = Some k) \<and>
         dom (FilterConfigs (snd ?res)) = fst ` set pre \<and>
         FilterConfigs (snd ?res) n = None"
      by (intro exI conjI) (rule p(1) p(2) p(3) fr er dr nr)+
    with aok have ?caseB by (rule conjI)
    then show ?thesis ..
  qed
  have only: "(\<forall>(k', d') \<in> set (rangeMap authKeys (Auth c)).
          k' \<noteq> n \<longrightarrow> (\<exists>conf. InitConfigs_Auth_entry ops st k' d' = Inr conf)) \<and>
      (\<forall>(k', d') \<in> set (rangeMap filterKeys (Filters c)).
          k' \<noteq> n \<longrightarrow> (\<exists>pfc. InitConfigs_Filters_entry ops mo st k' d' = Inr pfc))
      \<longrightarrow> (\<exists>e. fst ?res = Some e \<and> errorPlugin e = Some n)"
  proof (intro impI, elim conjE)
    assume ha: "\<forall>(k', d') \<in> set (rangeMap authKeys (Auth c)).
          k' \<noteq> n \<longrightarrow> (\<exists>conf. InitConfigs_Auth_entry ops st k' d' = Inr conf)"
      and hf: "\<forall>(k', d') \<in> set (rangeMap filterKeys (Filters c)).
          k' \<noteq> n \<longrightarrow> (\<exists>pfc. InitConfigs_Filters_entry ops mo st k' d' = Inr pfc)"
    from core show "\<exists>e. fst ?res = Some e \<and> errorPlugin e = Some n"
    proof
      assume ?caseA
      then obtain pre k d post e where p:
        "rangeMap authKeys (Auth c) = pre @ (k, d) # post"
        "InitConfigs_Auth_entry ops st k d = Inl e"
        "fst ?res = Some e" "errorPlugin e = Some k"
        by blast
      have "(k, d) \<in> set (rangeMap authKeys (Auth c))" using p(1) by simp
      then have "k = n" using ha p(2) by fastforce
      then show ?thesis using p(3,4) by blast
    next
      assume b: ?caseB
      have aok: "\<forall>(k', d') \<in> set (rangeMap authKeys (Auth c)).
           \<exists>conf. InitConfigs_Auth_entry ops st k' d' = Inr conf"
        using b by (rule conjunct1)
      have "\<exists>pre k d post e.
         rangeMap filterKeys (Filters c) = pre @ (k, d) # post \<and>
         (\<forall>(k', d') \<in> set pre. \<exists>pfc. InitConfigs_Filters_entry ops mo st k' d' = Inr pfc) \<and>
         InitConfigs_Filters_entry ops mo st k d = Inl e \<and>
         fst ?res = Some e \<and>
         (if d = None \<and> LoadHttpFilterFactoryAndParser st k \<noteq> None
            then e = Panic ''nil pointer dereference'' else errorPlugin e = Some k) \<and>
         dom (FilterConfigs (snd ?res)) = fst ` set pre \<and>
         FilterConfigs (snd ?res) n = None"
        using b by (rule conjunct2)
      then obtain pre k d post e where big:
        "rangeMap filterKeys (Filters c) = pre @ (k, d) # post \<and>
         (\<forall>(k', d') \<in> set pre. \<exists>pfc. InitConfigs_Filters_entry ops mo st k' d' = Inr pfc) \<and>
         InitConfigs_Filters_entry ops mo st k d = Inl e \<and>
         fst ?res = Some e \<and>
         (if d = None \<and> LoadHttpFilterFactoryAndParser st k \<noteq> None
            then e = Panic ''nil pointer dereference'' else errorPlugin e = Some k) \<and>
         dom (FilterConfigs (snd ?res)) = fst ` set pre \<and>
         FilterConfigs (snd ?res) n = None"
        by (elim exE) (rule that)
      note p = big [THEN conjunct1] big [THEN conjunct2, THEN conjunct2, THEN conjunct1]
        big [THEN conjunct2, THEN conjunct2, THEN conjunct2, THEN conjunct1]
        big [THEN conjunct2, THEN conjunct2, THEN conjunct2, THEN conjunct2, THEN conjunct1]
      have "(k, d) \<in> set (rangeMap filterKeys (Filters c))" using p(1) by simp
      then have kn: "k = n" using hf p(2) by fastforce
      have un: "LoadHttpFilterFactoryAndParser st n = None"
      proof -
        have "\<not> (n \<in> mapKeys (Auth c) \<and> LoadHttpPlugin st n = None)"
        proof
          assume a: "n \<in> mapKeys (Auth c) \<and> LoadHttpPlugin st n = None"
          then obtain d1 where "(n, d1) \<in> set (rangeMap authKeys (Auth c))"
            using mapKeys_rangeMap [OF assms(1)] by blast
          then have "\<exists>conf. InitConfigs_Auth_entry ops st n d1 = Inr conf" using aok by blast
          then show False using Auth_entry_unregistered [of st n ops d1] a by simp
        qed
        then show ?thesis using assms(3) by blast
      qed
      have "errorPlugin e = Some n" using p(4) un kn by simp
      then show ?thesis using p(3) by blast
    qed
  qed
  from core only show ?thesis by (rule conjI)
qed

lemma mixedConsumer_fields:
  "Auth mixedConsumer = Some fmempty"
  "Filters mixedConsumer = Some (fmap_of_list [(''basic-auth'', Some None), (''b'', Some None)])"
  by (simp_all add: mixedConsumer_def zeroConsumer_def)

lemma mixed_ranges:
  "rangeOrder [] (Auth mixedConsumer)"
  "rangeOrder [''basic-auth'', ''b''] (Filters mixedConsumer)"
  by (auto simp: rangeOrder_def mapKeys_def mixedConsumer_fields)

lemma mixed_rangeMap:
  "rangeMap [] (Auth mixedConsumer) = []"
  "rangeMap [''basic-auth'', ''b''] (Filters mixedConsumer)
     = [(''basic-auth'', Some None), (''b'', Some None)]"
  by (simp_all add: mixedConsumer_fields rangeMap_simps)

lemma scenario_unresolved_b:
  "''b'' \<in> mapKeys (Filters mixedConsumer)"
  "LoadHttpFilterFactoryAndParser scenarioPlugins ''b'' = None"
  by (simp_all add: mapKeys_def mixedConsumer_fields LoadHttpFilterFactoryAndParser_def
      scenarioPlugins_def afterCalls_def RegisterHttpPlugin_def initialPlugins_def)

lemma mixed_basic_auth_entry:
  "InitConfigs_Filters_entry exampleOps exampleModel scenarioPlugins ''basic-auth'' (Some None)
     = Inr \<lparr>pfcName = ''basic-auth'', ParsedConfig = 100, pfcFactory = 0\<rparr>"
  by code_simp

lemma mixed_InitConfigs:
  "fst (InitConfigs exampleOps exampleModel scenarioPlugins [] [''basic-auth'', ''b'']
      mixedConsumer) = Some (PluginNotFound ''b'')"
  "FilterConfigs (snd (InitConfigs exampleOps exampleModel scenarioPlugins []
      [''basic-auth'', ''b''] mixedConsumer)) ''b'' = None"
  "FilterConfigs (snd (InitConfigs exampleOps exampleModel scenarioPlugins []
      [''basic-auth'', ''b''] mixedConsumer)) ''basic-auth''
     = Some \<lparr>pfcName = ''basic-auth'', ParsedConfig = 100, pfcFactory = 0\<rparr>"
  by code_simp+

theorem InitConfigs_unregistered_fails_witness:
  "rangeOrder [] (Auth mixedConsumer) \<and>
   rangeOrder [''basic-auth'', ''b''] (Filters mixedConsumer) \<and>
   ''b'' \<in> mapKeys (Filters mixedConsumer) \<and>
   LoadHttpFilterFactoryAndParser scenarioPlugins ''b'' = None \<and>
   rangeMap [] (Auth mixedConsumer) = [] \<and>
   rangeMap [''basic-auth'', ''b''] (Filters mixedConsumer)
     = [(''basic-auth'', Some None), (''b'', Some None)] \<and>
   InitConfigs_Filters_entry exampleOps exampleModel scenarioPlugins ''basic-auth'' (Some None)
     = Inr \<lparr>pfcName = ''basic-auth'', ParsedConfig = 100, pfcFactory = 0\<rparr> \<and>
   (\<exists>e. fst (InitConfigs exampleOps exampleModel scenarioPlugins [] [''basic-auth'', ''b'']
            mixedConsumer) = Some e \<and> errorPlugin e = Some ''b'') \<and>
   fst (InitConfigs exampleOps exampleModel scenarioPlugins [] [''basic-auth'', ''b'']
      mixedConsumer) = Some (PluginNotFound ''b'') \<and>
   FilterConfigs (snd (InitConfigs exampleOps exampleModel scenarioPlugins []
      [''basic-auth'', ''b''] mixedConsumer)) ''b'' = None \<and>
   FilterConfigs (snd (InitConfigs exampleOps exampleModel scenarioPlugins []
      [''basic-auth'', ''b''] mixedConsumer)) ''basic-auth''
     = Some \<lparr>pfcName = ''basic-auth'', ParsedConfig = 100, pfcFactory = 0\<rparr>"
proof -
  have ha: "\<forall>(k', d') \<in> set (rangeMap [] (Auth mixedConsumer)).
      k' \<noteq> ''b'' \<longrightarrow> (\<exists>conf. InitConfigs_Auth_entry exampleOps scenarioPlugins k' d' = Inr conf)"
    by (simp add: mixed_rangeMap)
  have hf: "\<forall>(k', d') \<in> set (rangeMap [''basic-auth'', ''b''] (Filters mixedConsumer)).
      k' \<noteq> ''b'' \<longrightarrow>
      (\<exists>pfc. InitConfigs_Filters_entry exampleOps exampleModel scenarioPlugins k' d' = Inr pfc)"
    by (simp add: mixed_rangeMap mixed_basic_auth_entry)
  have un: "(''b'' \<in> mapKeys (Auth mixedConsumer) \<and> LoadHttpPlugin scenarioPlugins ''b'' = None) \<or>
      (''b'' \<in> mapKeys (Filters mixedConsumer) \<and>
       LoadHttpFilterFactoryAndParser scenarioPlugins ''b'' = None)"
    using scenario_unresolved_b by blast
  note t = InitConfigs_unregistered_fails [OF mixed_ranges un,
      where ops = exampleOps and mo = exampleModel, THEN conjunct2]
  have ex: "\<exists>e. fst (InitConfigs exampleOps exampleModel scenarioPlugins [] [''basic-auth'', ''b'']
            mixedConsumer) = Some e \<and> errorPlugin e = Some ''b''"
    using t ha hf by (rule mp [OF _ conjI])
  show ?thesis
    by (intro conjI)
       (rule mixed_ranges scenario_unresolved_b mixed_rangeMap mixed_basic_auth_entry ex
          mixed_InitConfigs)+
qed

lemma strangerConsumer_fields:
  "Auth strangerConsumer = Some (fmap_of_list [(''a'', ''{}'')])"
  "Filters strangerConsumer = Some (fmap_of_list [(''b'', Some None)])"
  "FilterConfigs strangerConsumer = Map.empty"
  by (simp_all add: strangerConsumer_def zeroConsumer_def)

lemma stranger_ranges:
  "rangeOrder [''a''] (Auth strangerConsumer)" "rangeOrder [''b''] (Filters strangerConsumer)"
  by (simp_all add: rangeOrder_def mapKeys_def strangerConsumer_fields)

lemma stranger_InitConfigs:
  "InitConfigs exampleOps exampleModel initialPlugins [''a''] [''b''] strangerConsumer
     = (Some (NotForConsumer ''a''), strangerConsumer\<lparr>ConsumerConfigs := Map.empty\<rparr>)"
  by (simp add: InitConfigs_def strangerConsumer_fields rangeMap_simps LoadHttpPlugin_def
      initialPlugins_def InitConfigs_Auth_entry_def)

text \<open>
  C3 as stated fails: \<open>b\<close> is a plugin name of \<open>Filters\<close> that resolves to nothing, and
  the error that \<open>InitConfigs\<close> returns names \<open>a\<close>, the name at which the \<open>Auth\<close> loop
  failed before.
\<close>

theorem InitConfigs_error_names_other_plugin_counterexample:
  "''b'' \<in> mapKeys (Filters strangerConsumer) \<and>
   LoadHttpFilterFactoryAndParser (initialPlugins :: (nat, nat) PluginsState) ''b'' = None \<and>
   rangeOrder [''a''] (Auth strangerConsumer) \<and> rangeOrder [''b''] (Filters strangerConsumer) \<and>
   fst (InitConfigs exampleOps exampleModel initialPlugins [''a''] [''b''] strangerConsumer)
     = Some (NotForConsumer ''a'') \<and>
   errorPlugin (NotForConsumer ''a'') \<noteq> Some ''b''"
proof -
  have k: "''b'' \<in> mapKeys (Filters strangerConsumer)"
    by (simp add: mapKeys_def strangerConsumer_fields)
  have u: "LoadHttpFilterFactoryAndParser (initialPlugins :: (nat, nat) PluginsState) ''b'' = None"
    by (simp add: LoadHttpFilterFactoryAndParser_def initialPlugins_def)
  show ?thesis
    using stranger_ranges k u by (simp add: stranger_InitConfigs)
qed

section \<open>The order of the filters\<close>

lemma InitConfigs_keeps:
  "Filters (snd (InitConfigs ops mo st authKeys filterKeys c)) = Filters c"
  "Auth (snd (InitConfigs ops mo st authKeys filterKeys c)) = Auth c"
  "FilterNames (snd (InitConfigs ops mo st authKeys filterKeys c)) = FilterNames c"
  by (simp_all add: InitConfigs_def split: prod.splits option.splits)

lemma InitConfigs_succeeds_FilterConfigs:
  assumes "fst (InitConfigs ops mo st authKeys filterKeys c) = None"
    and "rangeOrder filterKeys (Filters c)"
  shows "dom (FilterConfigs (snd (InitConfigs ops mo st authKeys filterKeys c)))
           = mapKeys (Filters c)"
    and "FilterConfigs (snd (InitConfigs ops mo st authKeys filterKeys c)) n = Some p
           \<Longrightarrow> pfcName p = n"
proof -
  let ?A = "InitConfigs_Auth ops st (rangeMap authKeys (Auth c)) Map.empty"
  let ?F = "InitConfigs_Filters ops mo st (rangeMap filterKeys (Filters c)) Map.empty"
  have a: "fst ?A = None"
    using assms(1) by (cases ?A; cases "fst ?A") (auto simp: InitConfigs_def)
  then have r: "InitConfigs ops mo st authKeys filterKeys c
      = (fst ?F, c\<lparr>ConsumerConfigs := snd ?A, FilterConfigs := snd ?F\<rparr>)"
    by (cases ?A; cases ?F) (simp add: InitConfigs_def)
  have f: "fst ?F = None" using assms(1) unfolding r by simp
  have "dom (snd ?F) = fst ` set (rangeMap filterKeys (Filters c))"
    using InitConfigs_Filters_succeeds [OF f] by simp
  then show "dom (FilterConfigs (snd (InitConfigs ops mo st authKeys filterKeys c)))
           = mapKeys (Filters c)"
    unfolding r by (simp add: rangeMap_keys [OF assms(2)])
  assume "FilterConfigs (snd (InitConfigs ops mo st authKeys filterKeys c)) n = Some p"
  then have "snd ?F n = Some p" unfolding r by simp
  then show "pfcName p = n"
    by (rule InitConfigs_Filters_names [rotated]) simp
qed

lemma sorted_by_order_unique:
  "sorted_wrt (\<lambda>a b. fst (ComparePluginOrder st a b)) xs \<Longrightarrow>
   sorted_wrt (\<lambda>a b. fst (ComparePluginOrder st a b)) ys \<Longrightarrow> set xs = set ys \<Longrightarrow> xs = ys"
proof (induction xs arbitrary: ys)
  case Nil
  then show ?case by simp
next
  case (Cons x xs)
  then obtain y ys' where ys: "ys = y # ys'" by (cases ys) auto
  have sx: "\<forall>z \<in> set xs. fst (ComparePluginOrder st x z)" using Cons.prems(1) by simp
  have sy: "\<forall>z \<in> set ys'. fst (ComparePluginOrder st y z)" using Cons.prems(2) ys by simp
  have xy: "x = y"
  proof (rule ccontr)
    assume ne: "x \<noteq> y"
    have "x \<in> set ys'" using Cons.prems(3) ys ne by auto
    then have 1: "fst (ComparePluginOrder st y x)" using sy by simp
    have "y \<in> set xs" using Cons.prems(3) ys ne by auto
    then have 2: "fst (ComparePluginOrder st x y)" using sx by simp
    from ComparePluginOrder_trans [OF 2 1] ComparePluginOrder_irrefl show False by blast
  qed
  have "x \<notin> set xs" using sx ComparePluginOrder_irrefl by blast
  moreover have "y \<notin> set ys'" using sy ComparePluginOrder_irrefl by blast
  ultimately have "set xs = set ys'" using Cons.prems(3) ys xy by auto
  moreover have "sorted_wrt (\<lambda>a b. fst (ComparePluginOrder st a b)) xs"
    and "sorted_wrt (\<lambda>a b. fst (ComparePluginOrder st a b)) ys'"
    using Cons.prems(1,2) ys by simp_all
  ultimately have "xs = ys'" using Cons.IH by blast
  then show ?case using xy ys by simp
qed

lemma sorted_by_order_exists:
  "finite S \<Longrightarrow>
     \<exists>xs. set xs = S \<and> distinct xs \<and> sorted_wrt (\<lambda>a b. fst (ComparePluginOrder st a b)) xs"
proof (induction S rule: finite_induct)
  case empty
  show ?case by (rule exI [of _ "[]"]) simp
next
  case (insert x F)
  let ?lt = "\<lambda>a b. fst (ComparePluginOrder st a b)"
  from insert.IH obtain xs where xs: "set xs = F" "distinct xs" "sorted_wrt ?lt xs" by blast
  let ?lo = "filter (\<lambda>y. ?lt y x) xs"
  let ?hi = "filter (\<lambda>y. \<not> ?lt y x) xs"
  have xn: "x \<notin> set xs" using insert.hyps xs(1) by simp
  have hi: "\<forall>z \<in> set ?hi. ?lt x z"
  proof
    fix z assume z: "z \<in> set ?hi"
    then have "z \<noteq> x" using xn by auto
    then show "?lt x z" using ComparePluginOrder_total [of z x st] z by simp
  qed
  have cross: "\<forall>a \<in> set ?lo. \<forall>b \<in> set (x # ?hi). ?lt a b"
  proof (intro ballI)
    fix a b
    assume a: "a \<in> set ?lo" and b: "b \<in> set (x # ?hi)"
    have ax: "?lt a x" using a by simp
    show "?lt a b"
    proof (cases "b = x")
      case True
      then show ?thesis using ax by simp
    next
      case False
      then have "b \<in> set ?hi" using b by simp
      then have "?lt x b" using hi by blast
      with ax show ?thesis by (rule ComparePluginOrder_trans)
    qed
  qed
  have slo: "sorted_wrt ?lt ?lo" using xs(3) by (rule sorted_wrt_filter)
  have shi: "sorted_wrt ?lt ?hi" using xs(3) by (rule sorted_wrt_filter)
  have sxhi: "sorted_wrt ?lt (x # ?hi)" using hi shi by (simp only: sorted_wrt.simps)
  have s: "sorted_wrt ?lt (?lo @ x # ?hi)"
    using slo sxhi cross by (simp only: sorted_wrt_append)
  have st: "set (?lo @ x # ?hi) = insert x F" using xs(1) by auto
  have d: "distinct (?lo @ x # ?hi)" using xs(2) xn by auto
  show ?case using st d s by blast
qed

lemma scenario_InitConfigs:
  "fst (InitConfigs exampleOps exampleModel scenarioPlugins [] [''rate-limit'', ''basic-auth'']
      scenarioConsumer) = None"
  "FilterNames (snd (InitConfigs exampleOps exampleModel scenarioPlugins []
      [''rate-limit'', ''basic-auth''] scenarioConsumer)) = None"
  by code_simp+

lemma scenario_range: "rangeOrder [''rate-limit'', ''basic-auth''] (Filters scenarioConsumer)"
  by (auto simp: rangeOrder_def mapKeys_def scenarioConsumer_fields)

lemma scenario_keys: "mapKeys (Filters scenarioConsumer) = {''basic-auth'', ''rate-limit''}"
  by (auto simp: mapKeys_def scenarioConsumer_fields)

lemma exchangedPlugins_fresh:
  "\<not> nameToOrderInit exchangedPlugins" "nameToOrder exchangedPlugins = Map.empty"
  "httpPlugins exchangedPlugins =
     [''basic-auth'' \<mapsto> examplePlugin 20 0, ''rate-limit'' \<mapsto> examplePlugin 10 0]"
  by (simp_all add: exchangedPlugins_def afterCalls_def RegisterHttpPlugin_def initialPlugins_def)

lemma exchanged_compare:
  "fst (ComparePluginOrder exchangedPlugins ''rate-limit'' ''basic-auth'')"
  by (simp add: ComparePluginOrder_fst nameToOrderInit_Do_def exchangedPlugins_fresh
      orderAt_def examplePlugin_def)

lemma scenario_sorted:
  "sorted_wrt (\<lambda>a b. fst (ComparePluginOrder scenarioPlugins a b)) [''basic-auth'', ''rate-limit'']"
  using scenario_compare(1) by simp

lemma exchanged_sorted:
  "sorted_wrt (\<lambda>a b. fst (ComparePluginOrder exchangedPlugins a b)) [''rate-limit'', ''basic-auth'']"
  using exchanged_compare by simp

text \<open>
  C2, as amended. A successful \<open>InitConfigs\<close> does not assign \<open>FilterNames\<close>: it leaves
  \<open>FilterNames\<close> and \<open>Filters\<close> as they were and fills \<open>FilterConfigs\<close> with exactly the
  names of \<open>Filters\<close>, each entry under its own name. Those names have exactly one
  arrangement in the order of \<open>ComparePluginOrder\<close>, which is the sequence that
  \<open>FilterNames\<close> has to receive from its separate derivation. With \<open>basic-auth\<close> at
  position 10 and \<open>rate-limit\<close> at position 20, for the consumer whose \<open>Filters\<close> holds
  these two, that arrangement is \<open>basic-auth\<close>, \<open>rate-limit\<close>; with the positions
  exchanged it is \<open>rate-limit\<close>, \<open>basic-auth\<close>.
\<close>

theorem InitConfigs_keeps_FilterNames_sorted_names_unique:
  assumes "fst (InitConfigs ops mo st authKeys filterKeys c) = None"
    and "rangeOrder filterKeys (Filters c)"
  shows
    "FilterNames (snd (InitConfigs ops mo st authKeys filterKeys c)) = FilterNames c \<and>
     Filters (snd (InitConfigs ops mo st authKeys filterKeys c)) = Filters c \<and>
     dom (FilterConfigs (snd (InitConfigs ops mo st authKeys filterKeys c)))
       = mapKeys (Filters c) \<and>
     (\<forall>n p. FilterConfigs (snd (InitConfigs ops mo st authKeys filterKeys c)) n = Some p
        \<longrightarrow> pfcName p = n) \<and>
     (\<exists>names. set names = mapKeys (Filters c) \<and> distinct names \<and>
        sorted_wrt (\<lambda>a b. fst (ComparePluginOrder st a b)) names \<and>
        (\<forall>other. set other = mapKeys (Filters c) \<and>
            sorted_wrt (\<lambda>a b. fst (ComparePluginOrder st a b)) other \<longrightarrow> other = names)) \<and>
     set [''basic-auth'', ''rate-limit''] = mapKeys (Filters scenarioConsumer) \<and>
     sorted_wrt (\<lambda>a b. fst (ComparePluginOrder scenarioPlugins a b))
       [''basic-auth'', ''rate-limit''] \<and>
     (\<forall>other. set other = mapKeys (Filters scenarioConsumer) \<and>
        sorted_wrt (\<lambda>a b. fst (ComparePluginOrder scenarioPlugins a b)) other
        \<longrightarrow> other = [''basic-auth'', ''rate-limit'']) \<and>
     (\<forall>other. set other = mapKeys (Filters scenarioConsumer) \<and>
        sorted_wrt (\<lambda>a b. fst (ComparePluginOrder exchangedPlugins a b)) other
        \<longrightarrow> other = [''rate-limit'', ''basic-auth''])"
proof -
  let ?c' = "snd (InitConfigs ops mo st authKeys filterKeys c)"
  have 1: "FilterNames ?c' = FilterNames c" by (rule InitConfigs_keeps)
  have 2: "Filters ?c' = Filters c" by (rule InitConfigs_keeps)
  have 3: "dom (FilterConfigs ?c') = mapKeys (Filters c)"
    using assms by (rule InitConfigs_succeeds_FilterConfigs)
  have 4: "\<forall>n p. FilterConfigs ?c' n = Some p \<longrightarrow> pfcName p = n"
    using InitConfigs_succeeds_FilterConfigs(2) [OF assms] by blast
  have "finite (mapKeys (Filters c))" by (simp add: mapKeys_def split: option.splits)
  from sorted_by_order_exists [OF this, of st]
  obtain names where n: "set names = mapKeys (Filters c)" "distinct names"
    "sorted_wrt (\<lambda>a b. fst (ComparePluginOrder st a b)) names"
    by blast
  have u: "\<forall>other. set other = mapKeys (Filters c) \<and>
      sorted_wrt (\<lambda>a b. fst (ComparePluginOrder st a b)) other \<longrightarrow> other = names"
    using sorted_by_order_unique [OF _ n(3)] n(1) by simp
  have 5: "\<exists>names. set names = mapKeys (Filters c) \<and> distinct names \<and>
        sorted_wrt (\<lambda>a b. fst (ComparePluginOrder st a b)) names \<and>
        (\<forall>other. set other = mapKeys (Filters c) \<and>
            sorted_wrt (\<lambda>a b. fst (ComparePluginOrder st a b)) other \<longrightarrow> other = names)"
    using n u by blast
  have 6: "set [''basic-auth'', ''rate-limit''] = mapKeys (Filters scenarioConsumer)"
    by (simp add: scenario_keys)
  have 8: "\<forall>other. set other = mapKeys (Filters scenarioConsumer) \<and>
        sorted_wrt (\<lambda>a b. fst (ComparePluginOrder scenarioPlugins a b)) other
        \<longrightarrow> other = [''basic-auth'', ''rate-limit'']"
    using sorted_by_order_unique [OF _ scenario_sorted] 6 by simp
  have "set [''rate-limit'', ''basic-auth''] = mapKeys (Filters scenarioConsumer)"
    by (auto simp: scenario_keys)
  then have 9: "\<forall>other. set other = mapKeys (Filters scenarioConsumer) \<and>
        sorted_wrt (\<lambda>a b. fst (ComparePluginOrder exchangedPlugins a b)) other
        \<longrightarrow> other = [''rate-limit'', ''basic-auth'']"
    using sorted_by_order_unique [OF _ exchanged_sorted] by simp
  show ?thesis
    by (intro conjI) (rule 1 2 3 4 5 6 scenario_sorted 8 9)+
qed

theorem InitConfigs_keeps_FilterNames_sorted_names_unique_witness:
  "fst (InitConfigs exampleOps exampleModel scenarioPlugins [] [''rate-limit'', ''basic-auth'']
      scenarioConsumer) = None \<and>
   rangeOrder [''rate-limit'', ''basic-auth''] (Filters scenarioConsumer) \<and>
   FilterNames (snd (InitConfigs exampleOps exampleModel scenarioPlugins []
      [''rate-limit'', ''basic-auth''] scenarioConsumer)) = FilterNames scenarioConsumer \<and>
   dom (FilterConfigs (snd (InitConfigs exampleOps exampleModel scenarioPlugins []
      [''rate-limit'', ''basic-auth''] scenarioConsumer))) = {''basic-auth'', ''rate-limit''}"
proof -
  note t = InitConfigs_keeps_FilterNames_sorted_names_unique
      [OF scenario_InitConfigs(1) scenario_range]
  have a: "FilterNames (snd (InitConfigs exampleOps exampleModel scenarioPlugins []
      [''rate-limit'', ''basic-auth''] scenarioConsumer)) = FilterNames scenarioConsumer"
    using t by (rule conjunct1)
  have b: "dom (FilterConfigs (snd (InitConfigs exampleOps exampleModel scenarioPlugins []
      [''rate-limit'', ''basic-auth''] scenarioConsumer))) = {''basic-auth'', ''rate-limit''}"
    using t [THEN conjunct2, THEN conjunct2, THEN conjunct1] by (simp only: scenario_keys)
  show ?thesis
    by (intro conjI) (rule scenario_InitConfigs(1) scenario_range a b)+
qed

text \<open>
  C2 as stated fails: in the scenario \<open>InitConfigs\<close> succeeds and \<open>FilterNames\<close> is
  still nil, not \<open>basic-auth\<close>, \<open>rate-limit\<close>.
\<close>

theorem InitConfigs_leaves_FilterNames_nil_counterexample:
  "fst (InitConfigs exampleOps exampleModel scenarioPlugins [] [''rate-limit'', ''basic-auth'']
      scenarioConsumer) = None \<and>
   FilterNames (snd (InitConfigs exampleOps exampleModel scenarioPlugins []
      [''rate-limit'', ''basic-auth''] scenarioConsumer)) = None \<and>
   FilterNames (snd (InitConfigs exampleOps exampleModel scenarioPlugins []
      [''rate-limit'', ''basic-auth''] scenarioConsumer)) \<noteq> Some [''basic-auth'', ''rate-limit'']"
  by (simp add: scenario_InitConfigs)

end
